theory Spec2Isabelle
  imports Complex_Main "HOL-Library.Word"
begin

section \<open>Billing engine: the loan aggregate and the service boundary\<close>

text \<open>
  A shallow embedding of \<^verbatim>\<open>internal/entity/loan.go\<close>,
  \<^verbatim>\<open>internal/entity/loan_payment.go\<close>, the \<^verbatim>\<open>businesserror\<close> package and the
  error normalisation of \<^verbatim>\<open>internal/service\<close>.

  Conventions.
  \<^item> A nil \<^verbatim>\<open>*Loan\<close> is \<open>None\<close>; a method with a pointer receiver takes a \<open>Loan option\<close>.
  \<^item> A Go \<^verbatim>\<open>error\<close> result is an \<open>error option\<close> (\<open>None\<close> is nil), or the left
    summand of a sum.
  \<^item> A panic of the decimal library (division by zero, exponent overflow) is the left
    summand \<open>panic\<close>.
  \<^item> The calls \<^verbatim>\<open>uuid.NewV7()\<close> and \<^verbatim>\<open>time.Now()\<close> read the environment; their
    results are parameters of the model.
\<close>

subsection \<open>Library types\<close>

text \<open>
  \<^verbatim>\<open>uuid.UUID\<close> is \<^verbatim>\<open>[16]byte\<close>; \<^verbatim>\<open>uuid.Nil\<close> is the all-zero value.

  A \<^verbatim>\<open>decimal.Decimal\<close> (shopspring/decimal v1.4.0) is a coefficient \<^verbatim>\<open>value\<close> and an
  exponent \<^verbatim>\<open>exp\<close> of type \<^verbatim>\<open>int32\<close>, and denotes \<open>value \<times> 10 ^ exp\<close>. \<^verbatim>\<open>Add\<close>,
  \<^verbatim>\<open>Sub\<close> and \<^verbatim>\<open>Mul\<close> are exact and \<^verbatim>\<open>Cmp\<close>, \<^verbatim>\<open>Equal\<close>, \<^verbatim>\<open>IsZero\<close>,
  \<^verbatim>\<open>IsNegative\<close>, \<^verbatim>\<open>LessThanOrEqual\<close> compare the denoted numbers, so the amounts of
  a loan and of its payments are modelled by the rational numbers they denote
  (\<open>decimal\<close>).

  Two operations look at the exponent itself. \<^verbatim>\<open>Mul\<close> panics when the sum of the two
  exponents leaves \<^verbatim>\<open>int32\<close>. \<^verbatim>\<open>CreateLoan\<close> multiplies the amount it is given, which
  \<^verbatim>\<open>decimal.NewFromString\<close> parses from the request with any exponent, so that argument
  is modelled with its representation (\<open>Decimal\<close>) and the panic is a result of the model.
  The other \<^verbatim>\<open>Mul\<close>, in \<^verbatim>\<open>CurrentBillAmount\<close>, multiplies two decimals of exponent
  0. \<^verbatim>\<open>QuoRem\<close>, under \<^verbatim>\<open>Div\<close>, panics when the difference of the two exponents plus
  the precision leaves \<^verbatim>\<open>int32\<close>; the loans and paid amounts that the service divides
  are read from \<^verbatim>\<open>NUMERIC\<close> columns, with exponents between -16383 and 0, where that
  check passes, and it is not modelled.

  A \<^verbatim>\<open>time.Time\<close> is an instant, modelled as nanoseconds since 1970-01-01T00:00:00Z
  (no leap seconds, as in Go). A \<^verbatim>\<open>time.Duration\<close> is an \<^verbatim>\<open>int64\<close> count of nanoseconds.
\<close>

type_synonym uuid = "128 word"
type_synonym decimal = rat
type_synonym time = int
type_synonym duration = int

datatype panic = DivisionByZero | ExponentOverflow

datatype Decimal = Decimal (d_value: int) (d_exp: "32 word")

definition denote :: "Decimal \<Rightarrow> decimal" where
  "denote d = of_int (d_value d) * 10 powi sint (d_exp d)"

definition uuid_Nil :: uuid where
  "uuid_Nil = 0"

subsection \<open>Package businesserror\<close>

datatype Kind =
    KindInternal
  | KindBadRequest
  | KindUnprocessableEntity
  | KindNotFound
  | KindAlreadyExists

datatype BusinessError = New (msg: string) (kind: Kind)

text \<open>
  Go error values, as far as \<^verbatim>\<open>errors.As\<close> tells them apart: a \<^verbatim>\<open>*BusinessError\<close>,
  an error of another type that wraps nothing (a driver or library error), an error with
  \<^verbatim>\<open>Unwrap() error\<close>, and an error with \<^verbatim>\<open>Unwrap() []error\<close> (what
  \<^verbatim>\<open>multierr.Combine\<close> builds in \<^verbatim>\<open>finishTransaction\<close>).
\<close>

datatype error =
    Business BusinessError
  | Opaque string
  | Wrapped string error
  | Multi "error list"

subsection \<open>Decimal operations\<close>

text \<open>Truncation toward zero, as \<^verbatim>\<open>big.Int.Quo\<close> and Go's float-to-integer conversion.\<close>

definition trunc_int :: "rat \<Rightarrow> int" where
  "trunc_int x = (if 0 \<le> x then \<lfloor>x\<rfloor> else \<lceil>x\<rceil>)"

text \<open>Nearest integer, ties away from zero.\<close>

definition round_half_away :: "rat \<Rightarrow> int" where
  "round_half_away x = (if 0 \<le> x then \<lfloor>x + 1 / 2\<rfloor> else \<lceil>x - 1 / 2\<rceil>)"

text \<open>\<^verbatim>\<open>d.RoundUp(0)\<close>: away from zero. \<^verbatim>\<open>d.RoundDown(0)\<close>: toward zero.
  \<^verbatim>\<open>d.Round(0)\<close>: nearest, ties away from zero.\<close>

definition RoundUp0 :: "decimal \<Rightarrow> decimal" where
  "RoundUp0 d = (if 0 \<le> d then of_int \<lceil>d\<rceil> else of_int \<lfloor>d\<rfloor>)"

definition RoundDown0 :: "decimal \<Rightarrow> decimal" where
  "RoundDown0 d = of_int (trunc_int d)"

definition Round0 :: "decimal \<Rightarrow> decimal" where
  "Round0 d = of_int (round_half_away d)"

text \<open>
  \<^verbatim>\<open>d.Div(d2)\<close> is \<^verbatim>\<open>d.DivRound(d2, int32(DivisionPrecision))\<close>, and the package
  variable \<^verbatim>\<open>DivisionPrecision\<close> is 16. \<^verbatim>\<open>DivRound\<close> takes the quotient truncated to
  16 decimal places (\<^verbatim>\<open>QuoRem\<close>) and moves it by one unit of the last place away from
  zero when twice the remainder is at least the divisor: the quotient rounded to 16 decimal
  places, ties away from zero. \<^verbatim>\<open>QuoRem\<close> panics when \<^verbatim>\<open>d2\<close> is zero.
\<close>

definition DivisionPrecision :: nat where
  "DivisionPrecision = 16"

definition Div :: "decimal \<Rightarrow> decimal \<Rightarrow> panic + decimal" where
  "Div d d2 =
     (if d2 = 0 then Inl DivisionByZero
      else Inr (of_int (round_half_away (d / d2 * 10 ^ DivisionPrecision)) / 10 ^ DivisionPrecision))"

text \<open>
  \<^verbatim>\<open>d.Mul(d2)\<close> in the decimal library, without its initialisation of nil coefficients:

  \<^verbatim>\<open>
  func (d Decimal) Mul(d2 Decimal) Decimal {
      expInt64 := int64(d.exp) + int64(d2.exp)
      if expInt64 > math.MaxInt32 || expInt64 < math.MinInt32 {
          panic(fmt.Sprintf("exponent %v overflows an int32!", expInt64))
      }
      d3Value := new(big.Int).Mul(d.value, d2.value)
      return Decimal{value: d3Value, exp: int32(expInt64)}
  }
  \<close>
\<close>

definition Mul :: "Decimal \<Rightarrow> Decimal \<Rightarrow> panic + Decimal" where
  "Mul d d2 =
     (let expInt64 = sint (d_exp d) + sint (d_exp d2)
      in if expInt64 > 2 ^ 31 - 1 \<or> expInt64 < - (2 ^ 31) then Inl ExponentOverflow
         else Inr (Decimal (d_value d * d_value d2) (word_of_int expInt64)))"

text \<open>\<^verbatim>\<open>d.IntPart()\<close>: the integer part, converted by \<^verbatim>\<open>big.Int.Int64\<close>, which keeps the
  low 64 bits.\<close>

definition IntPart :: "decimal \<Rightarrow> int" where
  "IntPart d = sint (word_of_int (trunc_int d) :: 64 word)"

subsection \<open>Time operations\<close>

definition nsPerHour :: int where
  "nsPerHour = 3600000000000"

definition nsPerDay :: int where
  "nsPerDay = 24 * nsPerHour"

definition minDuration :: duration where
  "minDuration = - (2 ^ 63)"

definition maxDuration :: duration where
  "maxDuration = 2 ^ 63 - 1"

text \<open>The zero \<^verbatim>\<open>time.Time\<close> is January 1 of year 1, 00:00:00 UTC.\<close>

definition zeroTime :: time where
  "zeroTime = - 62135596800 * 1000000000"

definition IsZero :: "time \<Rightarrow> bool" where
  "IsZero t \<longleftrightarrow> t = zeroTime"

text \<open>\<^verbatim>\<open>t.Weekday()\<close> in UTC, Sunday = 0; 1970-01-01 was a Thursday.\<close>

definition Weekday :: "time \<Rightarrow> int" where
  "Weekday t = (t div nsPerDay + 4) mod 7"

text \<open>\<^verbatim>\<open>t.AddDate(0, 0, n)\<close> in UTC: the same clock time \<open>n\<close> days later.\<close>

definition AddDays :: "time \<Rightarrow> int \<Rightarrow> time" where
  "AddDays t n = t + n * nsPerDay"

text \<open>\<^verbatim>\<open>time.Date(t.Year(), t.Month(), t.Day(), 0, 0, 0, 0, time.UTC)\<close>: midnight UTC of
  the day of \<open>t\<close>.\<close>

definition startOfDay :: "time \<Rightarrow> time" where
  "startOfDay t = (t div nsPerDay) * nsPerDay"

text \<open>\<^verbatim>\<open>t.Sub(u)\<close>: the difference, saturated to the range of \<^verbatim>\<open>int64\<close>.\<close>

definition Sub :: "time \<Rightarrow> time \<Rightarrow> duration" where
  "Sub t u =
     (let d = t - u
      in if d < minDuration then minDuration else if maxDuration < d then maxDuration else d)"

text \<open>Go's integer division and remainder truncate toward zero.\<close>

definition quot :: "int \<Rightarrow> int \<Rightarrow> int" where
  "quot a b = sgn a * sgn b * (\<bar>a\<bar> div \<bar>b\<bar>)"

definition rem :: "int \<Rightarrow> int \<Rightarrow> int" where
  "rem a b = a - b * quot a b"

subsection \<open>IEEE 754 binary64 arithmetic\<close>

text \<open>
  \<^verbatim>\<open>float64\<close> operations round the exact result to the nearest number with a 53-bit
  significand, ties to even. \<open>float64 x\<close> is that number for \<open>x\<close> in the normal range;
  every value that \<^verbatim>\<open>currentWeek\<close> computes in \<^verbatim>\<open>float64\<close> is 0 or has a
  magnitude between \<open>2 powi -50\<close> and \<open>2 powi 22\<close>, so neither overflow nor subnormal
  numbers occur.
\<close>

text \<open>The number of binary digits of a positive integer.\<close>

function bitlength :: "int \<Rightarrow> int" where
  "bitlength n = (if n \<le> 0 then 0 else 1 + bitlength (n div 2))"
  by pat_completeness auto
termination
  by (relation "measure nat") auto

declare bitlength.simps [simp del]

text \<open>\<open>ilog2 x\<close> is the exponent \<open>e\<close> with \<open>2 powi e \<le> x < 2 powi (e + 1)\<close>, for \<open>0 < x\<close>.\<close>

definition ilog2 :: "rat \<Rightarrow> int" where
  "ilog2 x = (if 1 \<le> x then bitlength \<lfloor>x\<rfloor> - 1 else - bitlength (\<lceil>1 / x\<rceil> - 1))"

definition round_even :: "rat \<Rightarrow> int" where
  "round_even x =
     (let f = \<lfloor>x\<rfloor>; r = x - of_int f
      in if r < 1 / 2 then f else if 1 / 2 < r then f + 1 else if even f then f else f + 1)"

definition float64 :: "rat \<Rightarrow> rat" where
  "float64 x =
     (if x = 0 then 0
      else let u = 2 powi (ilog2 \<bar>x\<bar> - 52) in of_int (round_even (x / u)) * u)"

text \<open>
  \<^verbatim>\<open>
  func (d Duration) Hours() float64 {
      hour := d / Hour
      nsec := d % Hour
      return float64(hour) + float64(nsec)/(60*60*1e9)
  }
  \<close>
\<close>

definition Hours :: "duration \<Rightarrow> rat" where
  "Hours d =
     (let hour = quot d nsPerHour;
          nsec = rem d nsPerHour
      in float64 (float64 (of_int hour) + float64 (float64 (of_int nsec) / (60 * 60 * 1000000000))))"

subsection \<open>The loan entity\<close>

text \<open>\<^verbatim>\<open>LoanStatus\<close> is an \<^verbatim>\<open>int\<close> with two named values.\<close>

type_synonym LoanStatus = int

definition LoanStatusOngoing :: LoanStatus where
  "LoanStatusOngoing = 0"

definition LoanStatusPaid :: LoanStatus where
  "LoanStatusPaid = 1"

definition IsValid :: "LoanStatus \<Rightarrow> bool" where
  "IsValid s \<longleftrightarrow> s = LoanStatusOngoing \<or> s = LoanStatusPaid"

record Loan =
  ID :: uuid
  UserID :: uuid
  Amount :: decimal
  PaymentDurationWeeks :: "32 word"
  PaymentAmount :: decimal
  Status :: LoanStatus
  CreatedAt :: time
  UpdatedAt :: time

record LoanPayment =
  lp_ID :: uuid
  lp_LoanID :: uuid
  lp_Amount :: decimal
  lp_CreatedAt :: time
  lp_UpdatedAt :: time

definition delinquencyThresholdWeeks :: int where
  "delinquencyThresholdWeeks = 2"

text \<open>\<^verbatim>\<open>decimal.NewFromFloat(0.1)\<close> is the coefficient 1 with the exponent -1.\<close>

definition interestRate :: Decimal where
  "interestRate = Decimal 1 (- 1)"

definition ErrLoanEmptyID :: BusinessError where
  "ErrLoanEmptyID = New ''loan id cannot be empty'' KindBadRequest"

definition ErrLoanEmptyUserID :: BusinessError where
  "ErrLoanEmptyUserID = New ''loan user id cannot be empty'' KindBadRequest"

definition ErrLoanInvalidAmount :: BusinessError where
  "ErrLoanInvalidAmount = New ''loan amount must be greater than zero'' KindBadRequest"

definition ErrLoanInvalidPaymentDurationWeeks :: BusinessError where
  "ErrLoanInvalidPaymentDurationWeeks =
     New ''loan payment duration must be at least 1 week'' KindBadRequest"

definition ErrLoanInvalidPaymentAmount :: BusinessError where
  "ErrLoanInvalidPaymentAmount =
     New ''loan payment amount must be greater than zero'' KindBadRequest"

definition ErrLoanInvalidStatus :: BusinessError where
  "ErrLoanInvalidStatus = New ''invalid loan status'' KindBadRequest"

definition ErrLoanEmptyCreatedAt :: BusinessError where
  "ErrLoanEmptyCreatedAt = New ''created at cannot be empty'' KindBadRequest"

definition ErrLoanEmptyUpdatedAt :: BusinessError where
  "ErrLoanEmptyUpdatedAt = New ''updated at cannot be empty'' KindBadRequest"

definition ErrLoanStillHasOngoingLoan :: BusinessError where
  "ErrLoanStillHasOngoingLoan = New ''user still has ongoing loan'' KindUnprocessableEntity"

definition ErrLoanNotFound :: BusinessError where
  "ErrLoanNotFound = New ''loan not found'' KindNotFound"

definition ErrLoanCurrentWeekAlreadyPaid :: BusinessError where
  "ErrLoanCurrentWeekAlreadyPaid = New ''current week is already paid'' KindUnprocessableEntity"

definition ErrLoanNotExactPaymentAmount :: BusinessError where
  "ErrLoanNotExactPaymentAmount =
     New ''loan payment amount does not match billing amount'' KindUnprocessableEntity"

definition ErrLoanPaymentEmptyID :: BusinessError where
  "ErrLoanPaymentEmptyID = New ''loan payment id cannot be empty'' KindBadRequest"

definition ErrLoanPaymentEmptyLoanID :: BusinessError where
  "ErrLoanPaymentEmptyLoanID = New ''loan payment loan id cannot be empty'' KindBadRequest"

definition ErrLoanPaymentInvalidAmount :: BusinessError where
  "ErrLoanPaymentInvalidAmount =
     New ''loan payment amount must be greater than zero'' KindBadRequest"

definition ErrLoanPaymentEmptyCreatedAt :: BusinessError where
  "ErrLoanPaymentEmptyCreatedAt = New ''created at cannot be empty'' KindBadRequest"

definition ErrLoanPaymentEmptyUpdatedAt :: BusinessError where
  "ErrLoanPaymentEmptyUpdatedAt = New ''updated at cannot be empty'' KindBadRequest"

text \<open>\<^verbatim>\<open>(*Loan).validate\<close>: the first violated check, in the order of the source.\<close>

definition validate :: "Loan \<Rightarrow> error option" where
  "validate l =
     (if ID l = uuid_Nil then Some (Business ErrLoanEmptyID)
      else if UserID l = uuid_Nil then Some (Business ErrLoanEmptyUserID)
      else if Amount l \<le> 0 then Some (Business ErrLoanInvalidAmount)
      else if sint (PaymentDurationWeeks l) \<le> 0
        then Some (Business ErrLoanInvalidPaymentDurationWeeks)
      else if PaymentAmount l \<le> 0 then Some (Business ErrLoanInvalidPaymentAmount)
      else if \<not> IsValid (Status l) then Some (Business ErrLoanInvalidStatus)
      else if IsZero (CreatedAt l) then Some (Business ErrLoanEmptyCreatedAt)
      else if IsZero (UpdatedAt l) then Some (Business ErrLoanEmptyUpdatedAt)
      else None)"

text \<open>
  \<^verbatim>\<open>CreateLoan\<close>. \<open>newV7\<close> is the result of \<^verbatim>\<open>uuid.NewV7()\<close> (an error of the
  uuid library, or the identifier) and \<open>now\<close> that of \<^verbatim>\<open>time.Now().UTC()\<close>. The
  result is a panic of \<^verbatim>\<open>amount.Mul(interestRate)\<close>, or what the function returns: an
  error or the loan.
\<close>

definition CreateLoan ::
  "string + uuid \<Rightarrow> time \<Rightarrow> uuid \<Rightarrow> Decimal \<Rightarrow> 32 word \<Rightarrow> panic + (error + Loan)" where
  "CreateLoan newV7 now userID amount paymentDurationWeeks =
     (case newV7 of
        Inl e \<Rightarrow> Inr (Inl (Opaque e))
      | Inr loanID \<Rightarrow>
          (case Mul amount interestRate of
             Inl p \<Rightarrow> Inl p
           | Inr interest \<Rightarrow>
               (let loan = \<lparr> ID = loanID,
                             UserID = userID,
                             Amount = denote amount,
                             PaymentDurationWeeks = paymentDurationWeeks,
                             PaymentAmount = denote amount + RoundUp0 (denote interest),
                             Status = LoanStatusOngoing,
                             CreatedAt = now,
                             UpdatedAt = now \<rparr>
                in case validate loan of
                     Some err \<Rightarrow> Inr (Inl err)
                   | None \<Rightarrow> Inr (Inr loan))))"

definition ValidateLatestLoan :: "Loan option \<Rightarrow> Loan option \<Rightarrow> error option" where
  "ValidateLatestLoan l latestLoan =
     (case (l, latestLoan) of
        (Some loan, Some latest) \<Rightarrow>
          (if UserID loan = UserID latest \<and> Status latest = LoanStatusOngoing
           then Some (Business ErrLoanStillHasOngoingLoan) else None)
      | _ \<Rightarrow> None)"

definition OutstandingAmount :: "Loan option \<Rightarrow> decimal \<Rightarrow> decimal" where
  "OutstandingAmount l paidAmount =
     (case l of
        None \<Rightarrow> 0
      | Some loan \<Rightarrow>
          (let outstandingAmount = PaymentAmount loan - paidAmount
           in if outstandingAmount < 0 then 0 else outstandingAmount))"

definition weeklyPaymentAmount :: "Loan option \<Rightarrow> panic + decimal" where
  "weeklyPaymentAmount l =
     (case l of
        None \<Rightarrow> Inr 0
      | Some loan \<Rightarrow>
          (case Div (PaymentAmount loan) (of_int (sint (PaymentDurationWeeks loan))) of
             Inl p \<Rightarrow> Inl p
           | Inr q \<Rightarrow> Inr (RoundDown0 q)))"

text \<open>The Monday 00:00 UTC of the week of a timestamp, as \<^verbatim>\<open>currentWeek\<close> computes it.\<close>

definition beginningOfWeek :: "time \<Rightarrow> time" where
  "beginningOfWeek createdAt =
     (let weekday0 = Weekday createdAt - 1;
          weekday = (if weekday0 < 0 then weekday0 + 7 else weekday0)
      in startOfDay (AddDays createdAt (- weekday)))"

definition currentWeek :: "Loan option \<Rightarrow> time \<Rightarrow> 32 word" where
  "currentWeek l now =
     (case l of
        None \<Rightarrow> 0
      | Some loan \<Rightarrow>
          word_of_int
            (trunc_int (float64 (Hours (Sub now (beginningOfWeek (CreatedAt loan))) / (24 * 7)))))"

definition CurrentBillAmount :: "Loan option \<Rightarrow> time \<Rightarrow> decimal \<Rightarrow> panic + decimal" where
  "CurrentBillAmount l now paidAmount =
     (case l of
        None \<Rightarrow> Inr 0
      | Some loan \<Rightarrow>
          (let cw = currentWeek l now;
               obligation =
                 (if sint cw < sint (PaymentDurationWeeks loan)
                  then (case weeklyPaymentAmount l of
                          Inl p \<Rightarrow> Inl p
                        | Inr w \<Rightarrow> Inr (w * of_int (sint cw)))
                  else Inr (PaymentAmount loan))
           in case obligation of
                Inl p \<Rightarrow> Inl p
              | Inr paymentObligation \<Rightarrow>
                  (let billAmount = paymentObligation - paidAmount
                   in Inr (if billAmount < 0 then 0 else billAmount))))"

definition IsDelinquent :: "Loan option \<Rightarrow> time \<Rightarrow> decimal \<Rightarrow> panic + bool" where
  "IsDelinquent l now paidAmount =
     (case l of
        None \<Rightarrow> Inr False
      | Some loan \<Rightarrow>
          (if Status loan = LoanStatusPaid \<or> PaymentAmount loan = paidAmount then Inr False
           else case CurrentBillAmount l now paidAmount of
                  Inl p \<Rightarrow> Inl p
                | Inr billAmount \<Rightarrow>
                    (case weeklyPaymentAmount l of
                       Inl p \<Rightarrow> Inl p
                     | Inr w \<Rightarrow>
                         (case Div billAmount w of
                            Inl p \<Rightarrow> Inl p
                          | Inr q \<Rightarrow>
                              Inr (delinquencyThresholdWeeks < IntPart (Round0 q))))))"

subsection \<open>The loan payment entity\<close>

definition validate_payment :: "LoanPayment \<Rightarrow> error option" where
  "validate_payment lp =
     (if lp_ID lp = uuid_Nil then Some (Business ErrLoanPaymentEmptyID)
      else if lp_LoanID lp = uuid_Nil then Some (Business ErrLoanPaymentEmptyLoanID)
      else if lp_Amount lp \<le> 0 then Some (Business ErrLoanPaymentInvalidAmount)
      else if IsZero (lp_CreatedAt lp) then Some (Business ErrLoanPaymentEmptyCreatedAt)
      else if IsZero (lp_UpdatedAt lp) then Some (Business ErrLoanPaymentEmptyUpdatedAt)
      else None)"

definition CreateLoanPayment ::
  "string + uuid \<Rightarrow> time \<Rightarrow> uuid \<Rightarrow> decimal \<Rightarrow> error + LoanPayment" where
  "CreateLoanPayment newV7 now loanID amount =
     (case newV7 of
        Inl e \<Rightarrow> Inl (Opaque e)
      | Inr paymentID \<Rightarrow>
          (let payment = \<lparr> lp_ID = paymentID,
                           lp_LoanID = loanID,
                           lp_Amount = amount,
                           lp_CreatedAt = now,
                           lp_UpdatedAt = now \<rparr>
           in case validate_payment payment of
                Some err \<Rightarrow> Inl err
              | None \<Rightarrow> Inr payment))"

text \<open>
  \<^verbatim>\<open>(*Loan).MakePayment\<close>. The method mutates its receiver, so the model returns the
  receiver's state after the call next to the three results. \<open>newV7\<close> and \<open>createdNow\<close>
  are what \<^verbatim>\<open>CreateLoanPayment\<close> reads from the environment, \<open>updatedNow\<close> is the
  \<^verbatim>\<open>time.Now().UTC()\<close> of the update.
\<close>

record PaymentResult =
  loanPayment :: "LoanPayment option"
  shouldUpdateLoan :: bool
  err :: "error option"
  receiver :: "Loan option"

definition MakePayment ::
  "string + uuid \<Rightarrow> time \<Rightarrow> time \<Rightarrow> Loan option \<Rightarrow> time \<Rightarrow> decimal \<Rightarrow> decimal
     \<Rightarrow> panic + PaymentResult" where
  "MakePayment newV7 createdNow updatedNow l now paidAmount paymentAmount =
     (case l of
        None \<Rightarrow>
          Inr \<lparr> loanPayment = None, shouldUpdateLoan = False,
                err = Some (Business ErrLoanNotFound), receiver = None \<rparr>
      | Some loan \<Rightarrow>
          (case CurrentBillAmount l now paidAmount of
             Inl p \<Rightarrow> Inl p
           | Inr billAmount \<Rightarrow>
               (if billAmount = 0 then
                  Inr \<lparr> loanPayment = None, shouldUpdateLoan = False,
                        err = Some (Business ErrLoanCurrentWeekAlreadyPaid), receiver = l \<rparr>
                else if billAmount \<noteq> paymentAmount then
                  Inr \<lparr> loanPayment = None, shouldUpdateLoan = False,
                        err = Some (Business ErrLoanNotExactPaymentAmount), receiver = l \<rparr>
                else
                  (case CreateLoanPayment newV7 createdNow (ID loan) paymentAmount of
                     Inl e \<Rightarrow>
                       Inr \<lparr> loanPayment = None, shouldUpdateLoan = False,
                             err = Some e, receiver = l \<rparr>
                   | Inr lp \<Rightarrow>
                       (if paidAmount + paymentAmount = PaymentAmount loan then
                          Inr \<lparr> loanPayment = Some lp, shouldUpdateLoan = True, err = None,
                                receiver = Some (loan\<lparr> Status := LoanStatusPaid,
                                                      UpdatedAt := updatedNow \<rparr>) \<rparr>
                        else
                          Inr \<lparr> loanPayment = Some lp, shouldUpdateLoan = False, err = None,
                                receiver = l \<rparr>)))))"

subsection \<open>Successive payments\<close>

text \<open>
  A run of payment calls on one loan, threaded as the payment workflow of
  \<^verbatim>\<open>postgres.Repository.MakePayment\<close> threads them: a call sees the loan as the previous
  call left it and the sum of the payments accepted so far
  (\<^verbatim>\<open>newPaidAmount = currPaidAmount.Add(loanPayment.Amount)\<close>). A call is what
  \<^verbatim>\<open>MakePayment\<close> reads from the environment, the time \<open>now\<close> and the payment amount.
  The run is \<open>None\<close> as soon as a call fails or panics; otherwise it returns the update
  flags of the calls, the loan and the paid amount at the end.
\<close>

type_synonym PaymentCall = "(string + uuid) \<times> time \<times> time \<times> time \<times> decimal"

fun MakePayments ::
  "Loan \<Rightarrow> decimal \<Rightarrow> PaymentCall list \<Rightarrow> (bool list \<times> Loan \<times> decimal) option" where
  "MakePayments loan paidAmount [] = Some ([], loan, paidAmount)"
| "MakePayments loan paidAmount ((newV7, createdNow, updatedNow, now, paymentAmount) # calls) =
     (case MakePayment newV7 createdNow updatedNow (Some loan) now paidAmount paymentAmount of
        Inl p \<Rightarrow> None
      | Inr r \<Rightarrow>
          (case (err r, loanPayment r, receiver r) of
             (None, Some lp, Some loan') \<Rightarrow>
               (case MakePayments loan' (paidAmount + lp_Amount lp) calls of
                  None \<Rightarrow> None
                | Some (flags, l, p) \<Rightarrow> Some (shouldUpdateLoan r # flags, l, p))
           | _ \<Rightarrow> None))"

subsection \<open>The service boundary\<close>

definition UnexpectedError :: BusinessError where
  "UnexpectedError = New ''unexpected error, please try again'' KindInternal"

text \<open>
  \<^verbatim>\<open>errors.As(err, &businessErr)\<close> for a target of type \<^verbatim>\<open>*BusinessError\<close>: the first
  business error of the error tree in pre-order.
\<close>

fun errors_As :: "error \<Rightarrow> BusinessError option"
  and errors_As_list :: "error list \<Rightarrow> BusinessError option" where
  "errors_As (Business b) = Some b"
| "errors_As (Opaque s) = None"
| "errors_As (Wrapped s e) = errors_As e"
| "errors_As (Multi es) = errors_As_list es"
| "errors_As_list [] = None"
| "errors_As_list (e # es) =
     (case errors_As e of Some b \<Rightarrow> Some b | None \<Rightarrow> errors_As_list es)"

definition ensureBusinessError :: "error option \<Rightarrow> error option" where
  "ensureBusinessError e =
     (case e of
        None \<Rightarrow> None
      | Some x \<Rightarrow>
          (case errors_As x of
             Some businessErr \<Rightarrow> Some (Business businessErr)
           | None \<Rightarrow> Some (Business UnexpectedError)))"

text \<open>
  The error result of the three service operations. The repository is an interface; what
  its methods return is a parameter: \<open>created\<close> is what \<^verbatim>\<open>entity.CreateLoan\<close>
  returns (a call that panics returns nothing), \<open>repoErr\<close> is the result of
  \<^verbatim>\<open>repo.CreateLoan\<close>, \<open>latest\<close> of \<^verbatim>\<open>repo.GetLatestLoan\<close>, \<open>paid\<close> of
  \<^verbatim>\<open>repo.GetLoanPaidAmount\<close> and \<open>repoRes\<close> of \<^verbatim>\<open>repo.MakePayment\<close>.
\<close>

definition service_CreateLoan_err :: "error + Loan \<Rightarrow> error option \<Rightarrow> error option" where
  "service_CreateLoan_err created repoErr =
     (case created of
        Inl e \<Rightarrow> ensureBusinessError (Some e)
      | Inr loan \<Rightarrow>
          (case repoErr of
             Some e \<Rightarrow> ensureBusinessError (Some e)
           | None \<Rightarrow> None))"

definition service_GetCurrentLoan_err ::
  "error + Loan option \<Rightarrow> error + decimal \<Rightarrow> error option" where
  "service_GetCurrentLoan_err latest paid =
     (case latest of
        Inl e \<Rightarrow> ensureBusinessError (Some e)
      | Inr None \<Rightarrow> Some (Business ErrLoanNotFound)
      | Inr (Some loan) \<Rightarrow>
          (if Status loan \<noteq> LoanStatusOngoing then Some (Business ErrLoanNotFound)
           else case paid of
                  Inl e \<Rightarrow> ensureBusinessError (Some e)
                | Inr paidAmount \<Rightarrow> None))"

definition service_MakePayment_err :: "error + Loan option \<times> decimal \<Rightarrow> error option" where
  "service_MakePayment_err repoRes =
     (case repoRes of
        Inl e \<Rightarrow> ensureBusinessError (Some e)
      | Inr r \<Rightarrow> None)"

section \<open>Properties\<close>

text \<open>The duration in weeks is read with \<open>sint\<close>; the conversion to a decimal stays
  written as \<open>of_int (sint w)\<close>.\<close>

declare of_int_sint [simp del]

subsection \<open>The ongoing-loan guard\<close>

text \<open>
  C8. For a new loan \<open>loan\<close> and any latest loan, \<^verbatim>\<open>ValidateLatestLoan\<close> fails, with
  \<^verbatim>\<open>ErrLoanStillHasOngoingLoan\<close>, exactly when the latest loan is present, has the user
  of the new loan and has status Ongoing; in every other case, and for a nil latest loan,
  it returns nil.
\<close>

theorem ValidateLatestLoan_guard:
  "ValidateLatestLoan (Some loan) latestLoan =
     (if (\<exists>latest. latestLoan = Some latest \<and> UserID latest = UserID loan
            \<and> Status latest = LoanStatusOngoing)
      then Some (Business ErrLoanStillHasOngoingLoan) else None)
   \<and> ValidateLatestLoan (Some loan) None = None"
  by (cases latestLoan) (auto simp: ValidateLatestLoan_def)

theorem ValidateLatestLoan_guard_witness:
  "ValidateLatestLoan
     (Some \<lparr> ID = 2, UserID = 7, Amount = 100, PaymentDurationWeeks = 4, PaymentAmount = 110,
             Status = LoanStatusOngoing, CreatedAt = 1000, UpdatedAt = 1000 \<rparr>)
     (Some \<lparr> ID = 1, UserID = 7, Amount = 500, PaymentDurationWeeks = 5, PaymentAmount = 550,
             Status = LoanStatusOngoing, CreatedAt = 10, UpdatedAt = 10 \<rparr>)
     = Some (Business ErrLoanStillHasOngoingLoan)
   \<and> ValidateLatestLoan
     (Some \<lparr> ID = 2, UserID = 7, Amount = 100, PaymentDurationWeeks = 4, PaymentAmount = 110,
             Status = LoanStatusOngoing, CreatedAt = 1000, UpdatedAt = 1000 \<rparr>)
     (Some \<lparr> ID = 1, UserID = 7, Amount = 500, PaymentDurationWeeks = 5, PaymentAmount = 550,
             Status = LoanStatusPaid, CreatedAt = 10, UpdatedAt = 10 \<rparr>)
     = None"
  using ValidateLatestLoan_guard
    [where loan = "\<lparr> ID = 2, UserID = 7, Amount = 100, PaymentDurationWeeks = 4,
             PaymentAmount = 110, Status = LoanStatusOngoing, CreatedAt = 1000,
             UpdatedAt = 1000 \<rparr>"
       and latestLoan = "Some \<lparr> ID = 1, UserID = 7, Amount = 500, PaymentDurationWeeks = 5,
             PaymentAmount = 550, Status = LoanStatusOngoing, CreatedAt = 10,
             UpdatedAt = 10 \<rparr>"]
    ValidateLatestLoan_guard
    [where loan = "\<lparr> ID = 2, UserID = 7, Amount = 100, PaymentDurationWeeks = 4,
             PaymentAmount = 110, Status = LoanStatusOngoing, CreatedAt = 1000,
             UpdatedAt = 1000 \<rparr>"
       and latestLoan = "Some \<lparr> ID = 1, UserID = 7, Amount = 500, PaymentDurationWeeks = 5,
             PaymentAmount = 550, Status = LoanStatusPaid, CreatedAt = 10,
             UpdatedAt = 10 \<rparr>"]
  by (simp add: LoanStatusOngoing_def LoanStatusPaid_def)

subsection \<open>Loan creation\<close>




lemma Mul_interestRate_panics:
  "Mul amount interestRate = Inl p \<longleftrightarrow> p = ExponentOverflow \<and> sint (d_exp amount) = - (2 ^ 31)"
proof -
  have s1: "sint (- 1 :: 32 word) = - 1" by simp
  have "- (2 ^ 31) \<le> sint (d_exp amount)" "sint (d_exp amount) < 2 ^ 31"
    using sint_ge [of "d_exp amount"] sint_lt [of "d_exp amount"] by simp_all
  then show ?thesis
    by (auto simp: Mul_def interestRate_def Let_def s1)
qed



text \<open>
  The amount \<^verbatim>\<open>1E-2147483648\<close>, whose exponent is the least \<^verbatim>\<open>int32\<close>, is not
  accepted: the multiplication by the interest rate panics.
\<close>

lemma CreateLoan_exponent_overflow:
  "CreateLoan (Inr 1) 1736899200000000000 7 (Decimal 1 (- 2147483648)) 3 = Inl ExponentOverflow"
  by (simp add: CreateLoan_def Mul_def interestRate_def Let_def)

subsection \<open>Error normalisation at the service boundary\<close>

lemma ensureBusinessError_Some:
  "ensureBusinessError (Some e) = Some x \<Longrightarrow> \<exists>k. x = Business k"
  by (auto simp: ensureBusinessError_def split: option.splits)

text \<open>
  C9, as the code has it. \<^verbatim>\<open>ensureBusinessError\<close> maps nil to nil and a business error
  to itself. An error that is not a business error but wraps one is replaced by the first
  business error that \<^verbatim>\<open>errors.As\<close> finds in it, and only an error that wraps none is
  replaced by \<^verbatim>\<open>UnexpectedError\<close>, of kind Internal. Every error that
  \<^verbatim>\<open>CreateLoan\<close>, \<^verbatim>\<open>GetCurrentLoan\<close> and \<^verbatim>\<open>MakePayment\<close> of the service return is a
  business error.
\<close>

theorem ensureBusinessError_classified:
  "ensureBusinessError None = None
   \<and> ensureBusinessError (Some (Business b)) = Some (Business b)
   \<and> (errors_As e = Some b \<longrightarrow> ensureBusinessError (Some e) = Some (Business b))
   \<and> (errors_As e = None \<longrightarrow> ensureBusinessError (Some e) = Some (Business UnexpectedError))
   \<and> kind UnexpectedError = KindInternal
   \<and> (service_CreateLoan_err created repoErr = Some x \<longrightarrow> (\<exists>k. x = Business k))
   \<and> (service_GetCurrentLoan_err latest paid = Some x \<longrightarrow> (\<exists>k. x = Business k))
   \<and> (service_MakePayment_err repoRes = Some x \<longrightarrow> (\<exists>k. x = Business k))"
proof -
  have 1: "service_CreateLoan_err created repoErr = Some x \<longrightarrow> (\<exists>k. x = Business k)"
    by (auto simp: service_CreateLoan_err_def split: sum.splits option.splits
        dest: ensureBusinessError_Some)
  have 2: "service_GetCurrentLoan_err latest paid = Some x \<longrightarrow> (\<exists>k. x = Business k)"
    by (auto simp: service_GetCurrentLoan_err_def split: sum.splits option.splits if_splits
        dest: ensureBusinessError_Some)
  have 3: "service_MakePayment_err repoRes = Some x \<longrightarrow> (\<exists>k. x = Business k)"
    by (auto simp: service_MakePayment_err_def split: sum.splits
        dest: ensureBusinessError_Some)
  show ?thesis
    using 1 2 3 by (simp add: ensureBusinessError_def UnexpectedError_def)
qed

theorem ensureBusinessError_classified_witness:
  "errors_As (Wrapped ''pq: could not serialize access'' (Business ErrLoanNotFound))
     = Some ErrLoanNotFound
   \<and> ensureBusinessError
       (Some (Wrapped ''pq: could not serialize access'' (Business ErrLoanNotFound)))
     = Some (Business ErrLoanNotFound)
   \<and> errors_As (Opaque ''pq: connection refused'') = None
   \<and> ensureBusinessError (Some (Opaque ''pq: connection refused''))
     = Some (Business UnexpectedError)
   \<and> service_MakePayment_err (Inl (Opaque ''pq: connection refused''))
     = Some (Business UnexpectedError)"
  using ensureBusinessError_classified
    [where e = "Wrapped ''pq: could not serialize access'' (Business ErrLoanNotFound)"
       and b = ErrLoanNotFound]
    ensureBusinessError_classified
    [where e = "Opaque ''pq: connection refused''"
       and repoRes = "Inl (Opaque ''pq: connection refused'')"
       and x = "Business UnexpectedError"]
  by (simp add: service_MakePayment_err_def)

theorem ensureBusinessError_wrapped_counterexample:
  "ensureBusinessError
     (Some (Multi [Business ErrLoanNotExactPaymentAmount, Opaque ''driver: bad connection'']))
     = Some (Business ErrLoanNotExactPaymentAmount)
   \<and> Business ErrLoanNotExactPaymentAmount
       \<noteq> Multi [Business ErrLoanNotExactPaymentAmount, Opaque ''driver: bad connection'']
   \<and> Business ErrLoanNotExactPaymentAmount \<noteq> Business UnexpectedError"
  by (simp add: ensureBusinessError_def ErrLoanNotExactPaymentAmount_def UnexpectedError_def)

subsection \<open>Rounding\<close>

lemma round_half_away_bounds:
  "x - 1 / 2 \<le> of_int (round_half_away x)" "of_int (round_half_away x) \<le> x + 1 / 2"
  by (simp_all add: round_half_away_def) linarith+

lemma round_half_away_ge_iff:
  "0 < n \<Longrightarrow> n \<le> round_half_away x \<longleftrightarrow> of_int n - 1 / 2 \<le> x"
proof -
  assume n: "0 < n"
  show ?thesis
  proof (cases "0 \<le> x")
    case True
    then show ?thesis
      by (simp add: round_half_away_def le_floor_iff) linarith
  next
    case False
    then have "\<lceil>x - 1 / 2\<rceil> \<le> 0" by (simp add: ceiling_le_iff)
    with False n show ?thesis
      by (simp add: round_half_away_def) linarith
  qed
qed

lemma round_half_away_of_int [simp]: "round_half_away (of_int n) = n"
  by (simp add: round_half_away_def) linarith

lemma trunc_int_of_int [simp]: "trunc_int (of_int n) = n"
  by (simp add: trunc_int_def)

lemma trunc_int_nonneg: "0 \<le> x \<Longrightarrow> trunc_int x = \<lfloor>x\<rfloor>"
  by (simp add: trunc_int_def)

lemma trunc_int_mono: "x \<le> y \<Longrightarrow> trunc_int x \<le> trunc_int y"
proof -
  assume xy: "x \<le> y"
  have "x < 0 \<Longrightarrow> 0 \<le> y \<Longrightarrow> \<lceil>x\<rceil> \<le> \<lfloor>y\<rfloor>"
  proof -
    assume "x < 0" "0 \<le> y"
    then have "\<lceil>x\<rceil> \<le> 0" "0 \<le> \<lfloor>y\<rfloor>" by (simp_all add: ceiling_le_iff)
    then show ?thesis by linarith
  qed
  with xy show ?thesis
    by (auto simp: trunc_int_def intro: floor_mono ceiling_mono)
qed

lemma trunc_int_minus: "trunc_int (- x) = - trunc_int x"
  by (auto simp: trunc_int_def ceiling_minus floor_minus)

lemma round_half_away_mono: "x \<le> y \<Longrightarrow> round_half_away x \<le> round_half_away y"
proof -
  assume xy: "x \<le> y"
  have "x < 0 \<Longrightarrow> 0 \<le> y \<Longrightarrow> \<lceil>x - 1 / 2\<rceil> \<le> \<lfloor>y + 1 / 2\<rfloor>"
  proof -
    assume "x < 0" "0 \<le> y"
    then have "\<lceil>x - 1 / 2\<rceil> \<le> 0" "0 \<le> \<lfloor>y + 1 / 2\<rfloor>" by (simp_all add: ceiling_le_iff)
    then show ?thesis by linarith
  qed
  with xy show ?thesis
    by (auto simp: round_half_away_def intro: floor_mono ceiling_mono)
qed

lemma round_half_away_0 [simp]: "round_half_away 0 = 0"
  using round_half_away_of_int [of 0] by simp

lemma sint_32_bounds: "- (2 ^ 31) \<le> sint (w :: 32 word)" "sint (w :: 32 word) < 2 ^ 31"
  using sint_range_size [of w] by (simp_all add: word_size)

text \<open>The value of the weekly amount.\<close>

lemma weeklyPaymentAmount_value:
  "sint (PaymentDurationWeeks loan) \<noteq> 0 \<Longrightarrow>
   weeklyPaymentAmount (Some loan) =
     Inr (of_int (trunc_int (of_int (round_half_away
       (PaymentAmount loan / of_int (sint (PaymentDurationWeeks loan)) * 10 ^ 16)) / 10 ^ 16)))"
  by (simp add: weeklyPaymentAmount_def Div_def DivisionPrecision_def RoundDown0_def)

lemma weekly_floor_aux:
  fixes m D :: int
  assumes D: "1 \<le> D" "D < 2 ^ 31" and m: "0 \<le> m"
  shows "trunc_int (of_int (round_half_away
           (of_int m / 10 ^ 6 / of_int D * 10 ^ 16)) / 10 ^ 16)
         = \<lfloor>(of_int m / 10 ^ 6 / of_int D :: rat)\<rfloor>"
proof -
  define a :: rat where "a = of_int m / 10 ^ 6 / of_int D"
  define n where "n = \<lfloor>a\<rfloor>"
  define R where "R = round_half_away (a * 10 ^ 16)"
  have Dpos: "(0::rat) < of_int D" using D by simp
  have a0: "0 \<le> a" using m Dpos by (simp add: a_def)
  then have n0: "0 \<le> n" by (simp add: n_def)
  have na: "of_int n \<le> a" by (simp add: n_def)
  have "of_int (n * 10 ^ 16) \<le> a * 10 ^ 16" using na by simp
  from round_half_away_mono [OF this] have lo: "n * 10 ^ 16 \<le> R"
    by (simp add: R_def del: of_int_mult of_int_power)
  have "a < of_int (n + 1)" unfolding n_def by linarith
  then have "of_int m < of_int (n + 1) * (10 ^ 6 * of_int D :: rat)"
    using Dpos by (simp add: a_def field_simps)
  then have "of_int m < (of_int ((n + 1) * (10 ^ 6 * D)) :: rat)" by simp
  then have "m < (n + 1) * (10 ^ 6 * D)" by (simp only: of_int_less_iff)
  then have "m + 1 \<le> (n + 1) * (10 ^ 6 * D)" by simp
  then have "(of_int (m + 1) :: rat) \<le> of_int ((n + 1) * (10 ^ 6 * D))"
    by (simp only: of_int_le_iff)
  then have "(of_int m + 1 :: rat) \<le> of_int (n + 1) * (10 ^ 6 * of_int D)" by simp
  then have "a + 1 / (10 ^ 6 * of_int D) \<le> of_int (n + 1)"
    using Dpos by (simp add: a_def field_simps)
  then have "a * 10 ^ 16 + 10 ^ 10 / of_int D \<le> of_int (n + 1) * 10 ^ 16"
    using Dpos by (simp add: field_simps)
  moreover have "(1::rat) < 10 ^ 10 / of_int D"
  proof -
    have "(of_int D :: rat) < 2 ^ 31" using D(2) by (metis of_int_less_iff of_int_numeral of_int_power)
    then show ?thesis using Dpos by (simp add: field_simps)
  qed
  ultimately have "a * 10 ^ 16 + 1 / 2 < of_int (n + 1) * 10 ^ 16 - 1 / 2" by linarith
  with round_half_away_bounds(2) [of "a * 10 ^ 16"]
  have "(of_int R :: rat) < of_int ((n + 1) * 10 ^ 16)" by (simp add: R_def)
  then have hi: "R < (n + 1) * 10 ^ 16" by (simp only: of_int_less_iff)
  have q0: "(0::rat) \<le> of_int R / 10 ^ 16" using lo n0
    by (simp add: order_trans [OF _ lo])
  have "\<lfloor>(of_int R / 10 ^ 16 :: rat)\<rfloor> = n"
  proof (rule floor_unique)
    have "(of_int (n * 10 ^ 16) :: rat) \<le> of_int R" using lo by (simp only: of_int_le_iff)
    then show "of_int n \<le> (of_int R / 10 ^ 16 :: rat)" by (simp add: field_simps)
    have "(of_int R :: rat) < of_int ((n + 1) * 10 ^ 16)" using hi by (simp only: of_int_less_iff)
    then show "(of_int R / 10 ^ 16 :: rat) < of_int n + 1" by (simp add: field_simps)
  qed
  with q0 show ?thesis
    by (simp add: trunc_int_nonneg R_def a_def n_def)
qed

lemma weekly_bound_aux:
  fixes D c :: int and T :: rat
  assumes D: "1 \<le> D" "D < 2 ^ 31" and T: "0 < T" and c: "c < D"
  defines "k \<equiv> trunc_int (of_int (round_half_away (T / of_int D * 10 ^ 16)) / 10 ^ 16)"
  shows "0 \<le> k" and "of_int k * of_int c \<le> T"
proof -
  define a :: rat where "a = T / of_int D"
  define R where "R = round_half_away (a * 10 ^ 16)"
  define e :: rat where "e = 1 / (2 * 10 ^ 16)"
  have Dpos: "(0::rat) < of_int D" using D by simp
  have a0: "0 < a" using T Dpos by (simp add: a_def)
  have "round_half_away 0 \<le> R" unfolding R_def
    by (rule round_half_away_mono) (use a0 in simp)
  then have R0: "0 \<le> R" by simp
  then have q0: "(0::rat) \<le> of_int R / 10 ^ 16" by simp
  have k: "k = \<lfloor>(of_int R / 10 ^ 16 :: rat)\<rfloor>"
    unfolding k_def using trunc_int_nonneg [OF q0] by (simp only: R_def a_def)
  show k0: "0 \<le> k" using q0 by (simp add: k)
  have "(of_int k :: rat) \<le> of_int R / 10 ^ 16" unfolding k by (rule of_int_floor_le)
  also have "\<dots> \<le> (a * 10 ^ 16 + 1 / 2) / 10 ^ 16"
    using round_half_away_bounds(2) [of "a * 10 ^ 16"] by (simp add: R_def divide_right_mono)
  also have "\<dots> = a + e" by (simp add: e_def field_simps)
  finally have ka: "of_int k \<le> a + e" .
  have TD: "T = a * of_int D" using Dpos by (simp add: a_def)
  show "of_int k * of_int c \<le> T"
  proof (cases "k = 0 \<or> c \<le> 0")
    case True
    then show ?thesis
    proof
      assume "k = 0" then show ?thesis using T by simp
    next
      assume "c \<le> 0"
      then have "(of_int k :: rat) * of_int c \<le> 0" using k0
        by (simp add: mult_nonneg_nonpos)
      with T show ?thesis by linarith
    qed
  next
    case False
    then have k1: "1 \<le> k" and c1: "1 \<le> c" using k0 by auto
    have cD: "(of_int c :: rat) \<le> of_int D - 1" using c by (metis of_int_1 of_int_diff of_int_le_iff zle_diff1_eq)
    have Dle: "(of_int D :: rat) - 1 \<le> 2 ^ 31"
    proof -
      have "(of_int D :: rat) < 2 ^ 31" using D(2) by (metis of_int_less_iff of_int_numeral of_int_power)
      then show ?thesis by linarith
    qed
    have c0: "(0::rat) \<le> of_int c" using c1 by simp
    have "(1::rat) \<le> of_int k" using k1 by simp
    with ka have a1: "1 - e \<le> a" by linarith
    have "(of_int k :: rat) * of_int c \<le> (a + e) * of_int c"
      using ka c0 by (rule mult_right_mono)
    also have "\<dots> \<le> (a + e) * (of_int D - 1)"
      using cD a0 by (intro mult_left_mono) (simp_all add: e_def)
    also have "\<dots> = a * of_int D - a + e * (of_int D - 1)" by (simp add: algebra_simps)
    also have "\<dots> \<le> a * of_int D - a + e * 2 ^ 31"
      using Dle by (simp add: e_def)
    also have "\<dots> \<le> a * of_int D"
      using a1 by (simp add: e_def)
    finally show ?thesis using TD by simp
  qed
qed

subsection \<open>The weekly payment amount\<close>

text \<open>
  When the duration is not zero, the weekly payment amount is the total payment amount
  divided by the duration, rounded half away from zero to 16 decimal places by
  \<^verbatim>\<open>Div\<close>, and then truncated toward zero by \<^verbatim>\<open>RoundDown(0)\<close>. For a duration of at
  least one week and a total that is not negative and has at most 6 decimal places this is
  \<open>floor (total / duration)\<close>. With a total of 10000 it is 3333 for 3 weeks and 1000 for
  10 weeks, and for 1 week it is the whole total when the total is a whole number.
\<close>

lemma weeklyPaymentAmount_rounding:
  "(sint (PaymentDurationWeeks loan) \<noteq> 0 \<longrightarrow>
      weeklyPaymentAmount (Some loan) =
        Inr (of_int (trunc_int (of_int (round_half_away
          (PaymentAmount loan / of_int (sint (PaymentDurationWeeks loan)) * 10 ^ 16))
            / 10 ^ 16))))
   \<and> (1 \<le> sint (PaymentDurationWeeks loan) \<and> 0 \<le> m \<and> PaymentAmount loan = of_int m / 10 ^ 6
      \<longrightarrow> weeklyPaymentAmount (Some loan) =
            Inr (of_int \<lfloor>PaymentAmount loan / of_int (sint (PaymentDurationWeeks loan))\<rfloor>))
   \<and> (PaymentAmount loan = 10000 \<and> PaymentDurationWeeks loan = 3
      \<longrightarrow> weeklyPaymentAmount (Some loan) = Inr 3333)
   \<and> (PaymentAmount loan = 10000 \<and> PaymentDurationWeeks loan = 10
      \<longrightarrow> weeklyPaymentAmount (Some loan) = Inr 1000)
   \<and> (0 \<le> t \<and> PaymentAmount loan = of_int t \<and> PaymentDurationWeeks loan = 1
      \<longrightarrow> weeklyPaymentAmount (Some loan) = Inr (of_int t))"
proof -
  let ?D = "sint (PaymentDurationWeeks loan)"
  have fl: "weeklyPaymentAmount (Some loan) = Inr (of_int \<lfloor>PaymentAmount loan / of_int ?D\<rfloor>)"
    if "1 \<le> ?D" "0 \<le> k" "PaymentAmount loan = of_int k / 10 ^ 6" for k
  proof -
    from that(1) have "?D \<noteq> 0" by simp
    from weeklyPaymentAmount_value [OF this]
      weekly_floor_aux [OF that(1) sint_32_bounds(2) that(2)]
    show ?thesis by (simp only: that(3))
  qed
  have a: "weeklyPaymentAmount (Some loan) = Inr 3333"
    if "PaymentAmount loan = 10000" "PaymentDurationWeeks loan = 3"
  proof -
    have "\<lfloor>(10000 :: rat) / 3\<rfloor> = 3333" by code_simp
    with fl [of "10000 * 10 ^ 6"] that show ?thesis by simp
  qed
  have b: "weeklyPaymentAmount (Some loan) = Inr 1000"
    if "PaymentAmount loan = 10000" "PaymentDurationWeeks loan = 10"
  proof -
    have "\<lfloor>(10000 :: rat) / 10\<rfloor> = 1000" by code_simp
    with fl [of "10000 * 10 ^ 6"] that show ?thesis by simp
  qed
  have c: "weeklyPaymentAmount (Some loan) = Inr (of_int t)"
    if "0 \<le> t" "PaymentAmount loan = of_int t" "PaymentDurationWeeks loan = 1"
    using fl [of "t * 10 ^ 6"] that by simp
  from fl [of m] a b c weeklyPaymentAmount_value [of loan] show ?thesis
    by blast
qed

text \<open>
  C5. \<^verbatim>\<open>weeklyPaymentAmount\<close> is documented to return the quotient of the total payment
  amount by the duration "rounded down to the nearest whole number". The loan that
  \<^verbatim>\<open>CreateLoan\<close> returns for a principal of 1952257859.9999999 over 2147483646 weeks has
  a total of 2147483645.9999999. The quotient of the total by the duration is below 1 and
  its floor is 0, but the weekly payment amount is 1: the quotient is below 1 by less than
  \<open>5 / 10 ^ 17\<close>, so \<^verbatim>\<open>Div\<close> rounds it to 1 before \<^verbatim>\<open>RoundDown(0)\<close> truncates.
\<close>

theorem weeklyPaymentAmount_above_floor:
  "CreateLoan (Inr 1) 1736899200000000000 7 (Decimal 19522578599999999 (- 7)) 2147483646
     = Inr (Inr \<lparr> ID = 1, UserID = 7, Amount = 1952257859.9999999,
             PaymentDurationWeeks = 2147483646, PaymentAmount = 2147483645.9999999,
             Status = LoanStatusOngoing, CreatedAt = 1736899200000000000,
             UpdatedAt = 1736899200000000000 \<rparr>)
   \<and> weeklyPaymentAmount
       (Some \<lparr> ID = 1, UserID = 7, Amount = 1952257859.9999999,
             PaymentDurationWeeks = 2147483646, PaymentAmount = 2147483645.9999999,
             Status = LoanStatusOngoing, CreatedAt = 1736899200000000000,
             UpdatedAt = 1736899200000000000 \<rparr>) = Inr 1
   \<and> (2147483645.9999999 :: rat) / of_int (sint (2147483646 :: 32 word)) < 1
   \<and> \<lfloor>(2147483645.9999999 :: rat) / of_int (sint (2147483646 :: 32 word))\<rfloor> = 0"
  by code_simp

subsection \<open>Rounding to binary64\<close>

lemma bitlength_pos:
  "0 < n \<Longrightarrow> \<exists>k. bitlength n = int k + 1 \<and> 2 ^ k \<le> n \<and> n < 2 ^ (k + 1)"
proof (induction n rule: bitlength.induct)
  case (1 n)
  show ?case
  proof (cases "n = 1")
    case True
    have "bitlength 1 = 1" by (simp add: bitlength.simps [of 1] bitlength.simps [of 0])
    with True show ?thesis by (intro exI [of _ 0]) simp
  next
    case False
    with "1.prems" have h: "0 < n div 2" by simp
    with "1.IH" "1.prems" obtain k where k: "bitlength (n div 2) = int k + 1"
      "2 ^ k \<le> n div 2" "n div 2 < 2 ^ (k + 1)" by auto
    have b: "bitlength n = int (Suc k) + 1"
      using "1.prems" k(1) by (simp add: bitlength.simps [of n])
    have lo: "2 ^ Suc k \<le> n" using k(2) by simp
    have hi: "n < 2 ^ (Suc k + 1)" using k(3) by simp
    from b lo hi show ?thesis by blast
  qed
qed

lemma ilog2_bounds:
  assumes "0 < x"
  shows "2 powi (ilog2 x) \<le> x" and "x < 2 powi (ilog2 x + 1)"
proof -
  have "2 powi (ilog2 x) \<le> x \<and> x < 2 powi (ilog2 x + 1)"
  proof (cases "1 \<le> x")
    case True
    then have "0 < \<lfloor>x\<rfloor>" by simp
    from bitlength_pos [OF this] obtain k where k: "bitlength \<lfloor>x\<rfloor> = int k + 1"
      "2 ^ k \<le> \<lfloor>x\<rfloor>" "\<lfloor>x\<rfloor> < 2 ^ (k + 1)" by auto
    have e: "ilog2 x = int k" using True k(1) by (simp add: ilog2_def)
    have "(of_int (2 ^ k) :: rat) \<le> of_int \<lfloor>x\<rfloor>" using k(2) by (simp only: of_int_le_iff)
    then have lo: "(2::rat) ^ k \<le> x" by (simp add: le_floor_iff)
    have "\<lfloor>x\<rfloor> + 1 \<le> 2 ^ (k + 1)" using k(3) by simp
    then have "(of_int (\<lfloor>x\<rfloor> + 1) :: rat) \<le> of_int (2 ^ (k + 1))" by (simp only: of_int_le_iff)
    moreover have "x < of_int (\<lfloor>x\<rfloor> + 1)" by linarith
    ultimately have hi: "x < 2 ^ (k + 1)" by simp
    have "int k + 1 = int (k + 1)" by simp
    with lo hi show ?thesis unfolding e by (simp only: power_int_of_nat)
  next
    case False
    with assms have x1: "x < 1" by simp
    define N where "N = \<lceil>1 / x\<rceil>"
    have y1: "1 < 1 / x" using assms x1 by simp
    then have "1 < N" unfolding N_def by (simp add: less_ceiling_iff)
    then have "0 < N - 1" by simp
    from bitlength_pos [OF this] obtain k where k: "bitlength (N - 1) = int k + 1"
      "2 ^ k \<le> N - 1" "N - 1 < 2 ^ (k + 1)" by auto
    have e: "ilog2 x = - int (k + 1)" using False k(1) by (simp add: ilog2_def N_def)
    have "(of_int (2 ^ k) :: rat) \<le> of_int (N - 1)" using k(2) by (simp only: of_int_le_iff)
    moreover have "of_int (N - 1) < 1 / x" unfolding N_def by linarith
    ultimately have "(2::rat) ^ k < 1 / x" by simp
    then have hi: "x < 1 / 2 ^ k" using assms by (simp add: field_simps)
    have "N \<le> 2 ^ (k + 1)" using k(3) by simp
    then have "(of_int N :: rat) \<le> of_int (2 ^ (k + 1))" by (simp only: of_int_le_iff)
    moreover have "1 / x \<le> of_int N" unfolding N_def by linarith
    ultimately have "1 / x \<le> 2 ^ (k + 1)" by simp
    then have lo: "1 / 2 ^ (k + 1) \<le> x" using assms by (simp add: field_simps)
    have p1: "(2::rat) powi (- int (k + 1)) = 1 / 2 ^ (k + 1)"
      by (simp only: power_int_minus power_int_of_nat inverse_eq_divide)
    have p2: "(2::rat) powi (- int (k + 1) + 1) = 1 / 2 ^ k"
    proof -
      have "- int (k + 1) + 1 = - int k" by simp
      then show ?thesis by (simp only: power_int_minus power_int_of_nat inverse_eq_divide)
    qed
    from lo hi show ?thesis unfolding e p1 p2 by simp
  qed
  then show "2 powi (ilog2 x) \<le> x" and "x < 2 powi (ilog2 x + 1)" by simp_all
qed

lemma powi2_pos [simp]: "(0::rat) < 2 powi e"
  by (simp add: power_int_def)

lemma powi2_mono: "a \<le> b \<Longrightarrow> (2::rat) powi a \<le> 2 powi b"
  by (rule power_int_increasing) simp_all

lemma powi2_less_imp: "(2::rat) powi a < 2 powi b \<Longrightarrow> a < b"
  using powi2_mono [of b a] by (cases "a < b") simp_all

lemma ilog2_unique:
  assumes "2 powi e \<le> x" "x < 2 powi (e + 1)"
  shows "ilog2 x = e"
proof -
  have x: "0 < x" using assms(1) powi2_pos [of e] by linarith
  from ilog2_bounds [OF x] assms
  have "(2::rat) powi e < 2 powi (ilog2 x + 1)" "(2::rat) powi (ilog2 x) < 2 powi (e + 1)"
    by linarith+
  then have "e < ilog2 x + 1" "ilog2 x < e + 1" by (auto dest: powi2_less_imp)
  then show ?thesis by simp
qed

lemma ilog2_mono:
  assumes "0 < x" "x \<le> y"
  shows "ilog2 x \<le> ilog2 y"
proof -
  from assms have y: "0 < y" by simp
  from ilog2_bounds(1) [OF assms(1)] ilog2_bounds(2) [OF y] assms(2)
  have "(2::rat) powi (ilog2 x) < 2 powi (ilog2 y + 1)" by linarith
  then show ?thesis by (auto dest: powi2_less_imp)
qed

lemma round_even_of_int [simp]: "round_even (of_int n) = n"
  by (simp add: round_even_def)

lemma round_even_bounds: "\<lfloor>x\<rfloor> \<le> round_even x" "round_even x \<le> \<lfloor>x\<rfloor> + 1"
  by (simp_all add: round_even_def Let_def)

lemma round_even_mono:
  assumes "x \<le> y"
  shows "round_even x \<le> round_even y"
proof (cases "\<lfloor>x\<rfloor> = \<lfloor>y\<rfloor>")
  case True
  then show ?thesis using assms by (auto simp: round_even_def Let_def)
next
  case False
  with floor_mono [OF assms] have "\<lfloor>x\<rfloor> + 1 \<le> \<lfloor>y\<rfloor>" by simp
  with round_even_bounds(2) [of x] round_even_bounds(1) [of y] show ?thesis by linarith
qed

lemma round_even_minus: "round_even (- x) = - round_even x"
proof (cases "x \<in> \<int>")
  case True
  then obtain n where "x = of_int n" by (auto elim: Ints_cases)
  then have "- x = of_int (- n)" by simp
  then show ?thesis unfolding \<open>x = of_int n\<close> by (simp only: round_even_of_int)
next
  case False
  then have "x \<noteq> of_int \<lfloor>x\<rfloor>" by (metis Ints_of_int)
  then have f: "\<lfloor>- x\<rfloor> = - \<lfloor>x\<rfloor> - 1"
    by (simp add: floor_minus ceiling_altdef)
  have r: "- x - of_int \<lfloor>- x\<rfloor> = 1 - (x - of_int \<lfloor>x\<rfloor>)" by (simp add: f)
  show ?thesis
    unfolding round_even_def Let_def r unfolding f by auto
qed

lemma float64_0 [simp]: "float64 0 = 0"
  by (simp add: float64_def)

lemma float64_minus: "float64 (- x) = - float64 x"
  by (simp add: float64_def Let_def round_even_minus)

lemma float64_pos_bounds:
  assumes "0 < x"
  shows "2 powi (ilog2 x) \<le> float64 x" and "float64 x \<le> 2 powi (ilog2 x + 1)"
proof -
  define u :: rat where "u = 2 powi (ilog2 x - 52)"
  have u: "0 < u" by (simp add: u_def)
  have f: "float64 x = of_int (round_even (x / u)) * u"
    using assms by (simp add: float64_def u_def Let_def)
  have p: "2 powi (ilog2 x) = 2 ^ 52 * u"
    using power_int_add [of "2::rat" 52 "ilog2 x - 52"] by (simp add: u_def)
  have q: "2 powi (ilog2 x + 1) = 2 ^ 53 * u"
    using power_int_add [of "2::rat" 53 "ilog2 x - 52"] by (simp add: u_def add.commute)
  from ilog2_bounds [OF assms] have "2 ^ 52 * u \<le> x" "x < 2 ^ 53 * u"
    by (simp_all add: p q)
  then have b: "of_int (2 ^ 52) \<le> x / u" "x / u \<le> of_int (2 ^ 53)"
    using u by (simp_all add: field_simps)
  from round_even_mono [OF b(1)] round_even_mono [OF b(2)]
  have "2 ^ 52 \<le> round_even (x / u)" "round_even (x / u) \<le> 2 ^ 53"
    by (simp_all only: round_even_of_int)
  then have "(of_int (2 ^ 52) :: rat) \<le> of_int (round_even (x / u))"
    "(of_int (round_even (x / u)) :: rat) \<le> of_int (2 ^ 53)"
    by (simp_all only: of_int_le_iff)
  then have "2 ^ 52 * u \<le> of_int (round_even (x / u)) * u"
    "of_int (round_even (x / u)) * u \<le> 2 ^ 53 * u"
    using u by simp_all
  then show "2 powi (ilog2 x) \<le> float64 x" and "float64 x \<le> 2 powi (ilog2 x + 1)"
    by (simp_all only: f p q)
qed

lemma float64_nonneg: "0 \<le> x \<Longrightarrow> 0 \<le> float64 x"
proof (cases "x = 0")
  case False
  assume "0 \<le> x"
  with False have "0 < x" by simp
  from float64_pos_bounds(1) [OF this] powi2_pos [of "ilog2 x"] show ?thesis by linarith
qed simp

lemma float64_mono_pos:
  assumes "0 < x" "x \<le> y"
  shows "float64 x \<le> float64 y"
proof -
  from assms have y: "0 < y" by simp
  show ?thesis
  proof (cases "ilog2 x = ilog2 y")
    case True
    define u :: rat where "u = 2 powi (ilog2 x - 52)"
    have u: "0 < u" by (simp add: u_def)
    have fx: "float64 x = of_int (round_even (x / u)) * u"
      using assms by (simp add: float64_def u_def Let_def)
    have fy: "float64 y = of_int (round_even (y / u)) * u"
      using y True by (simp add: float64_def u_def Let_def)
    have "x / u \<le> y / u" using assms(2) u by (simp add: divide_right_mono)
    from round_even_mono [OF this] show ?thesis using u by (simp add: fx fy)
  next
    case False
    with ilog2_mono [OF assms] have "ilog2 x + 1 \<le> ilog2 y" by simp
    from powi2_mono [OF this] float64_pos_bounds(2) [OF assms(1)] float64_pos_bounds(1) [OF y]
    show ?thesis by linarith
  qed
qed

lemma float64_mono:
  assumes "x \<le> y"
  shows "float64 x \<le> float64 y"
proof -
  consider "0 < x" | "x \<le> 0" "0 \<le> y" | "y < 0" by linarith
  then show ?thesis
  proof cases
    case 1
    then show ?thesis using assms by (rule float64_mono_pos)
  next
    case 2
    from float64_nonneg [of "- x"] 2(1) have "float64 x \<le> 0" by (simp add: float64_minus)
    with float64_nonneg [OF 2(2)] show ?thesis by linarith
  next
    case 3
    with assms have "0 < - y" "- y \<le> - x" by simp_all
    from float64_mono_pos [OF this] show ?thesis by (simp add: float64_minus)
  qed
qed

lemma float64_fix_pos:
  fixes m :: int
  assumes "0 < m" "m < 2 ^ 53"
  shows "float64 (of_int m * 2 powi k) = of_int m * 2 powi k"
proof -
  define x :: rat where "x = of_int m * 2 powi k"
  have x: "0 < x" using assms(1) by (simp add: x_def)
  define e where "e = ilog2 x"
  have "(2::rat) powi e \<le> x" unfolding e_def by (rule ilog2_bounds(1) [OF x])
  also have "x < 2 ^ 53 * 2 powi k"
  proof -
    have "(of_int m :: rat) < of_int (2 ^ 53)" using assms(2) by (simp only: of_int_less_iff)
    then show ?thesis by (simp add: x_def)
  qed
  also have "\<dots> = 2 powi (53 + k)"
    using power_int_add [of "2::rat" 53 k] by simp
  finally have "e < 53 + k" by (rule powi2_less_imp)
  then have "0 \<le> k - (e - 52)" by simp
  then have "k - (e - 52) = int (nat (k - (e - 52)))" by simp
  then obtain j :: nat where j: "k - (e - 52) = int j" ..
  define u :: rat where "u = 2 powi (e - 52)"
  have u: "0 < u" by (simp add: u_def)
  have "k = int j + (e - 52)" using j by simp
  then have "(2::rat) powi k = 2 powi (int j + (e - 52))" by (rule arg_cong)
  also have "\<dots> = 2 powi (int j) * u"
    using power_int_add [of "2::rat" "int j" "e - 52"] by (simp add: u_def)
  finally have "2 powi k = 2 powi (int j) * u" .
  then have xu: "x / u = of_int (m * 2 ^ j)" using u by (simp add: x_def)
  have "float64 x = of_int (round_even (x / u)) * u"
    using x by (simp add: float64_def u_def e_def Let_def)
  also have "\<dots> = x" unfolding xu round_even_of_int using xu u by (simp add: field_simps)
  finally show ?thesis by (simp add: x_def)
qed

lemma float64_fix:
  fixes m :: int
  assumes "\<bar>m\<bar> < 2 ^ 53"
  shows "float64 (of_int m * 2 powi k) = of_int m * 2 powi k"
proof -
  consider "0 < m" | "m = 0" | "m < 0" by linarith
  then show ?thesis
  proof cases
    case 1
    with assms show ?thesis by (intro float64_fix_pos) simp_all
  next
    case 2
    then show ?thesis by simp
  next
    case 3
    with assms have "0 < - m" "- m < 2 ^ 53" by simp_all
    from float64_fix_pos [OF this, of k] float64_minus [of "of_int (- m) * 2 powi k"]
    show ?thesis by simp
  qed
qed

lemma float64_of_int:
  fixes m :: int
  assumes "\<bar>m\<bar> < 2 ^ 53"
  shows "float64 (of_int m) = of_int m"
  using float64_fix [OF assms, of 0] by simp

subsection \<open>Hours of a duration and the week number\<close>

lemma quot_nonneg: "0 \<le> a \<Longrightarrow> 0 < b \<Longrightarrow> quot a b = a div b"
  by (cases "a = 0") (simp_all add: quot_def)

lemma rem_nonneg: "0 \<le> a \<Longrightarrow> 0 < b \<Longrightarrow> rem a b = a mod b"
  by (simp add: rem_def quot_nonneg minus_mult_div_eq_mod)

lemma quot_minus: "quot (- a) b = - quot a b"
  by (simp add: quot_def sgn_minus)

lemma rem_minus: "rem (- a) b = - rem a b"
  by (simp add: rem_def quot_minus)

lemma float64_1 [simp]: "float64 1 = 1"
  using float64_of_int [of 1] by simp

lemma Hours_minus: "Hours (- d) = - Hours d"
  by (simp only: Hours_def Let_def quot_minus rem_minus of_int_minus float64_minus
      minus_divide_left [symmetric] minus_add_distrib [symmetric])

lemma Hours_nonneg_eq:
  assumes "0 \<le> d" "d \<le> 2 ^ 63"
  shows "Hours d = float64 (of_int (d div nsPerHour)
            + float64 (of_int (d mod nsPerHour) / 3600000000000))"
proof -
  have c: "0 < nsPerHour" by (simp add: nsPerHour_def)
  have "d div nsPerHour \<le> 2 ^ 63 div nsPerHour" using assms(2) by (rule zdiv_mono1) (rule c)
  also have "\<dots> < 2 ^ 53" by (simp add: nsPerHour_def)
  finally have "d div nsPerHour < 2 ^ 53" .
  moreover have "0 \<le> d div nsPerHour" using assms(1) c by (simp add: pos_imp_zdiv_nonneg_iff)
  ultimately have h: "\<bar>d div nsPerHour\<bar> < 2 ^ 53" by simp
  have "d mod nsPerHour < nsPerHour" "0 \<le> d mod nsPerHour" using c by simp_all
  then have n: "\<bar>d mod nsPerHour\<bar> < 2 ^ 53" by (simp add: nsPerHour_def)
  show ?thesis
    using assms(1) c
    by (simp add: Hours_def Let_def quot_nonneg rem_nonneg float64_of_int [OF h]
        float64_of_int [OF n])
qed

lemma frac_hour_bounds:
  "0 \<le> float64 (of_int (d mod nsPerHour) / 3600000000000)"
  "float64 (of_int (d mod nsPerHour) / 3600000000000) \<le> 1"
proof -
  have c: "0 < nsPerHour" by (simp add: nsPerHour_def)
  have "d mod nsPerHour < nsPerHour" "0 \<le> d mod nsPerHour" using c by simp_all
  then have "(of_int (d mod nsPerHour) :: rat) \<le> of_int nsPerHour"
    "(0 :: rat) \<le> of_int (d mod nsPerHour)" by simp_all
  then have b: "(0::rat) \<le> of_int (d mod nsPerHour) / 3600000000000"
    "(of_int (d mod nsPerHour) :: rat) / 3600000000000 \<le> 1"
    by (simp_all add: nsPerHour_def)
  from float64_mono [OF b(1)] show "0 \<le> float64 (of_int (d mod nsPerHour) / 3600000000000)"
    by simp
  from float64_mono [OF b(2)] show "float64 (of_int (d mod nsPerHour) / 3600000000000) \<le> 1"
    by simp
qed

lemma Hours_nonneg_bounds:
  assumes "0 \<le> d" "d \<le> 2 ^ 63"
  shows "of_int (d div nsPerHour) \<le> Hours d" and "Hours d \<le> of_int (d div nsPerHour) + 1"
proof -
  have c: "0 < nsPerHour" by (simp add: nsPerHour_def)
  have "d div nsPerHour \<le> 2 ^ 63 div nsPerHour" using assms(2) by (rule zdiv_mono1) (rule c)
  also have "\<dots> < 2 ^ 53 - 1" by (simp add: nsPerHour_def)
  finally have lt: "d div nsPerHour < 2 ^ 53 - 1" .
  have ge: "0 \<le> d div nsPerHour" using assms(1) c by (simp add: pos_imp_zdiv_nonneg_iff)
  from lt ge have h: "\<bar>d div nsPerHour\<bar> < 2 ^ 53" and h1: "\<bar>d div nsPerHour + 1\<bar> < 2 ^ 53"
    by simp_all
  let ?f = "float64 (of_int (d mod nsPerHour) / 3600000000000)"
  have "float64 (of_int (d div nsPerHour)) \<le> float64 (of_int (d div nsPerHour) + ?f)"
    by (rule float64_mono) (use frac_hour_bounds(1) [of d] in simp)
  then show "of_int (d div nsPerHour) \<le> Hours d"
    by (simp only: float64_of_int [OF h] Hours_nonneg_eq [OF assms])
  have "float64 (of_int (d div nsPerHour) + ?f) \<le> float64 (of_int (d div nsPerHour + 1))"
    by (rule float64_mono) (use frac_hour_bounds(2) [of d] in simp)
  then show "Hours d \<le> of_int (d div nsPerHour) + 1"
    by (simp only: float64_of_int [OF h1] Hours_nonneg_eq [OF assms])
qed

lemma Hours_mono_nonneg:
  assumes "0 \<le> d" "d \<le> e" "e \<le> 2 ^ 63"
  shows "Hours d \<le> Hours e"
proof -
  have c: "0 < nsPerHour" by (simp add: nsPerHour_def)
  from assms have d: "d \<le> 2 ^ 63" and e: "0 \<le> e" by simp_all
  have le: "d div nsPerHour \<le> e div nsPerHour" using assms(2) by (rule zdiv_mono1) (rule c)
  show ?thesis
  proof (cases "d div nsPerHour = e div nsPerHour")
    case True
    have "d mod nsPerHour \<le> e mod nsPerHour"
      using assms(2) True by (metis add_le_cancel_left mult_div_mod_eq)
    then have "(of_int (d mod nsPerHour) :: rat) / 3600000000000
        \<le> of_int (e mod nsPerHour) / 3600000000000" by (simp add: divide_right_mono)
    then have "float64 (of_int (d mod nsPerHour) / 3600000000000)
        \<le> float64 (of_int (e mod nsPerHour) / 3600000000000)" by (rule float64_mono)
    then have "float64 (of_int (d div nsPerHour)
          + float64 (of_int (d mod nsPerHour) / 3600000000000))
        \<le> float64 (of_int (e div nsPerHour)
          + float64 (of_int (e mod nsPerHour) / 3600000000000))"
      using True by (intro float64_mono) simp
    then show ?thesis
      by (simp only: Hours_nonneg_eq [OF assms(1) d] Hours_nonneg_eq [OF e assms(3)])
  next
    case False
    with le have "d div nsPerHour + 1 \<le> e div nsPerHour" by simp
    then have "(of_int (d div nsPerHour) :: rat) + 1 \<le> of_int (e div nsPerHour)"
      by (metis of_int_1 of_int_add of_int_le_iff)
    with Hours_nonneg_bounds(2) [OF assms(1) d] Hours_nonneg_bounds(1) [OF e assms(3)]
    show ?thesis by linarith
  qed
qed

lemma Hours_nonneg: "0 \<le> d \<Longrightarrow> d \<le> 2 ^ 63 \<Longrightarrow> 0 \<le> Hours d"
  using Hours_mono_nonneg [of 0 d] by (simp add: Hours_def quot_def rem_def)

lemma Hours_mono:
  assumes "- (2 ^ 63) \<le> d" "d \<le> e" "e \<le> 2 ^ 63"
  shows "Hours d \<le> Hours e"
proof -
  consider "0 \<le> d" | "d < 0" "0 \<le> e" | "e < 0" by linarith
  then show ?thesis
  proof cases
    case 1
    then show ?thesis using assms by (intro Hours_mono_nonneg)
  next
    case 2
    from Hours_nonneg [of "- d"] 2(1) assms(1) have "Hours d \<le> 0" by (simp add: Hours_minus)
    with Hours_nonneg [OF 2(2) assms(3)] show ?thesis by linarith
  next
    case 3
    with assms have "0 \<le> - e" "- e \<le> - d" "- d \<le> 2 ^ 63" by simp_all
    from Hours_mono_nonneg [OF this] show ?thesis by (simp add: Hours_minus)
  qed
qed

lemma Sub_range: "- (2 ^ 63) \<le> Sub t u" "Sub t u \<le> 2 ^ 63"
  by (simp_all add: Sub_def Let_def minDuration_def maxDuration_def)

lemma Sub_mono: "t \<le> t' \<Longrightarrow> Sub t u \<le> Sub t' u"
  by (simp add: Sub_def Let_def minDuration_def maxDuration_def)

text \<open>The week number before its conversion to \<^verbatim>\<open>int32\<close>.\<close>

lemma week_mono:
  assumes "- (2 ^ 63) \<le> d" "d \<le> e" "e \<le> 2 ^ 63"
  shows "trunc_int (float64 (Hours d / (24 * 7))) \<le> trunc_int (float64 (Hours e / (24 * 7)))"
proof -
  from Hours_mono [OF assms] have "Hours d / (24 * 7) \<le> Hours e / (24 * 7)"
    by (simp add: divide_right_mono)
  then show ?thesis by (intro trunc_int_mono float64_mono)
qed

lemma week_max: "trunc_int (float64 (Hours (2 ^ 63) / (24 * 7))) = 15250"
  by code_simp

lemma week_min: "trunc_int (float64 (Hours (- (2 ^ 63)) / (24 * 7))) = - 15250"
  by code_simp

lemma week_range:
  assumes "- (2 ^ 63) \<le> d" "d \<le> 2 ^ 63"
  shows "- 15250 \<le> trunc_int (float64 (Hours d / (24 * 7)))"
    and "trunc_int (float64 (Hours d / (24 * 7))) \<le> 15250"
  using week_mono [of "- (2 ^ 63)" d] week_mono [of d "2 ^ 63"] assms
  by (simp_all only: week_max week_min)

lemma sint_currentWeek:
  "sint (currentWeek (Some loan) now)
     = trunc_int (float64 (Hours (Sub now (beginningOfWeek (CreatedAt loan))) / (24 * 7)))"
proof -
  let ?w = "trunc_int (float64 (Hours (Sub now (beginningOfWeek (CreatedAt loan))) / (24 * 7)))"
  from week_range [OF Sub_range]
  have "- 15250 \<le> ?w" "?w \<le> 15250" .
  then have "sint (word_of_int ?w :: 32 word) = ?w"
    by (simp only: sint_sbintrunc') (rule signed_take_bit_int_eq_self, simp_all)
  then show ?thesis by (simp add: currentWeek_def)
qed

lemma currentWeek_mono:
  "now \<le> now' \<Longrightarrow> sint (currentWeek (Some loan) now) \<le> sint (currentWeek (Some loan) now')"
  unfolding sint_currentWeek
  by (intro week_mono Sub_range Sub_mono)

lemma week_whole_seconds_nonneg:
  assumes d: "0 \<le> d" "d \<le> 2 ^ 63" and s: "d mod 1000000000 = 0"
  shows "trunc_int (float64 (Hours d / (24 * 7))) = d div (7 * nsPerDay)"
proof -
  define h where "h = d div nsPerHour"
  define n where "n = d mod nsPerHour"
  define q where "q = h div 168"
  define f where "f = float64 (of_int n / 3600000000000)"
  have c: "0 < nsPerHour" by (simp add: nsPerHour_def)
  have h0: "0 \<le> h" unfolding h_def using d(1) c by (simp add: pos_imp_zdiv_nonneg_iff)
  have "h \<le> 2 ^ 63 div nsPerHour" unfolding h_def using d(2) by (rule zdiv_mono1) (rule c)
  then have hmax: "h \<le> 2562047" by (simp add: nsPerHour_def)
  have q0: "0 \<le> q" unfolding q_def using h0 by (simp add: pos_imp_zdiv_nonneg_iff)
  have "q \<le> 2562047 div 168" unfolding q_def using hmax by (rule zdiv_mono1) simp
  then have qmax: "q \<le> 15250" by simp
  have hq: "168 * q \<le> h" "h \<le> 168 * q + 167"
    unfolding q_def by (simp_all add: minus_mult_div_eq_mod [symmetric, of h 168] algebra_simps)
  \<comment> \<open>the fraction of the hour\<close>
  have "(1000000000 :: int) dvd nsPerHour" by (simp add: nsPerHour_def)
  then have "n mod 1000000000 = d mod 1000000000" unfolding n_def by (rule mod_mod_cancel)
  with s have "1000000000 dvd n" by (simp add: dvd_eq_mod_eq_0)
  then obtain j where j: "n = 1000000000 * j" ..
  have "n < nsPerHour" "0 \<le> n" unfolding n_def using c by simp_all
  with j have "j < 3600" by (simp add: nsPerHour_def)
  then have "n \<le> 3599000000000" using j by simp
  then have "(of_int n :: rat) \<le> 3599000000000" by (metis of_int_le_iff of_int_numeral)
  then have "(of_int n :: rat) / 3600000000000 \<le> of_int 4095 * 2 powi (- 12)"
    by (simp add: power_int_minus field_simps)
  from float64_mono [OF this] have f: "f \<le> of_int 4095 * 2 powi (- 12)"
    unfolding f_def by (subst (asm) float64_fix) simp_all
  \<comment> \<open>the hours\<close>
  have H: "Hours d = float64 (of_int h + f)"
    unfolding h_def f_def n_def by (rule Hours_nonneg_eq [OF d])
  have lo: "of_int h \<le> Hours d"
    unfolding h_def by (rule Hours_nonneg_bounds(1) [OF d])
  have "of_int h + f \<le> of_int (4096 * h + 4095) * 2 powi (- 12)"
    using f by (simp add: power_int_minus field_simps)
  from float64_mono [OF this] have hi: "Hours d \<le> of_int (4096 * h + 4095) * 2 powi (- 12)"
    unfolding H by (subst (asm) float64_fix) (use h0 hmax in simp_all)
  \<comment> \<open>the weeks\<close>
  have "(of_int (168 * q) :: rat) \<le> of_int h" using hq(1) by (simp only: of_int_le_iff)
  with lo have "of_int q \<le> Hours d / (24 * 7)" by simp
  from float64_mono [OF this] have vlo: "of_int q \<le> float64 (Hours d / (24 * 7))"
    by (subst (asm) float64_of_int) (use q0 qmax in simp_all)
  have "(of_int h :: rat) \<le> of_int (168 * q + 167)" using hq(2) by (simp only: of_int_le_iff)
  then have "(of_int (4096 * h + 4095) :: rat) * 2 powi (- 12)
      \<le> 168 * (of_int ((q + 1) * 2 ^ 20 - 1) * 2 powi (- 20))"
    by (simp add: power_int_minus field_simps)
  with hi have "Hours d / (24 * 7) \<le> of_int ((q + 1) * 2 ^ 20 - 1) * 2 powi (- 20)"
    by simp
  from float64_mono [OF this]
  have "float64 (Hours d / (24 * 7)) \<le> of_int ((q + 1) * 2 ^ 20 - 1) * 2 powi (- 20)"
    by (subst (asm) float64_fix) (use q0 qmax in simp_all)
  also have "\<dots> < of_int q + 1" by (simp add: power_int_minus field_simps)
  finally have vhi: "float64 (Hours d / (24 * 7)) < of_int q + 1" .
  have "\<lfloor>float64 (Hours d / (24 * 7))\<rfloor> = q" using vlo vhi by (rule floor_unique)
  moreover have "0 \<le> float64 (Hours d / (24 * 7))" using vlo q0 by simp
  ultimately have "trunc_int (float64 (Hours d / (24 * 7))) = q"
    by (simp add: trunc_int_nonneg)
  moreover have "d div (7 * nsPerDay) = q"
  proof -
    have "7 * nsPerDay = nsPerHour * 168" by (simp add: nsPerDay_def)
    then have "d div (7 * nsPerDay) = d div (nsPerHour * 168)" by (rule arg_cong)
    also have "\<dots> = d div nsPerHour div 168" by (rule zdiv_zmult2_eq) simp
    finally show ?thesis by (simp add: q_def h_def)
  qed
  ultimately show ?thesis by simp
qed

lemma week_minus:
  "trunc_int (float64 (Hours (- d) / (24 * 7))) = - trunc_int (float64 (Hours d / (24 * 7)))"
  by (simp add: Hours_minus float64_minus trunc_int_minus)

lemma week_whole_seconds:
  assumes d: "- (2 ^ 63) \<le> d" "d \<le> 2 ^ 63" and s: "d mod 1000000000 = 0"
  shows "trunc_int (float64 (Hours d / (24 * 7))) = quot d (7 * nsPerDay)"
proof (cases "0 \<le> d")
  case True
  then show ?thesis
    using week_whole_seconds_nonneg [OF True d(2) s]
    by (simp add: quot_nonneg nsPerDay_def nsPerHour_def)
next
  case False
  then have n: "0 \<le> - d" "- d \<le> 2 ^ 63" using d by simp_all
  have "(- d) mod 1000000000 = 0" using s by (simp add: mod_minus_eq [symmetric])
  from week_whole_seconds_nonneg [OF n this] week_minus [of d] quot_minus [of d "7 * nsPerDay"]
  show ?thesis using n(1) by (simp add: quot_nonneg nsPerDay_def nsPerHour_def)
qed

subsection \<open>The billing-cycle anchor and the current week\<close>

lemma beginningOfWeek_eq:
  "beginningOfWeek t = (t div nsPerDay - (t div nsPerDay + 3) mod 7) * nsPerDay"
proof -
  define D where "D = t div nsPerDay"
  have w: "(if (D + 4) mod 7 - 1 < 0 then (D + 4) mod 7 - 1 + 7 else (D + 4) mod 7 - 1)
      = (D + 3) mod 7"
    by presburger
  have "(t + - ((D + 3) mod 7) * nsPerDay) div nsPerDay = D - (D + 3) mod 7"
    unfolding D_def by (simp add: nsPerDay_def nsPerHour_def)
  then show ?thesis
    unfolding beginningOfWeek_def Weekday_def Let_def startOfDay_def AddDays_def
      D_def [symmetric] w by simp
qed

lemma beginningOfWeek_facts:
  "beginningOfWeek t mod nsPerDay = 0"
  "beginningOfWeek t mod 1000000000 = 0"
  "Weekday (beginningOfWeek t) = 1"
  "beginningOfWeek t \<le> t"
  "t < beginningOfWeek t + 7 * nsPerDay"
proof -
  define D where "D = t div nsPerDay"
  define M where "M = D - (D + 3) mod 7"
  have b: "beginningOfWeek t = M * nsPerDay" by (simp add: beginningOfWeek_eq M_def D_def)
  have p: "0 < nsPerDay" by (simp add: nsPerDay_def nsPerHour_def)
  show "beginningOfWeek t mod nsPerDay = 0" by (simp add: b)
  show "beginningOfWeek t mod 1000000000 = 0" by (simp add: b nsPerDay_def nsPerHour_def)
  have "(M * nsPerDay) div nsPerDay = M" using p by simp
  moreover have "(M + 4) mod 7 = 1" unfolding M_def by presburger
  ultimately show "Weekday (beginningOfWeek t) = 1" by (simp add: Weekday_def b)
  have "t = D * nsPerDay + t mod nsPerDay" unfolding D_def by simp
  moreover have "0 \<le> t mod nsPerDay" "t mod nsPerDay < nsPerDay" using p by simp_all
  ultimately have t: "D * nsPerDay \<le> t" "t < D * nsPerDay + nsPerDay" by linarith+
  have "M \<le> D" "D \<le> M + 6" unfolding M_def by presburger+
  then have "M * nsPerDay \<le> D * nsPerDay" "D * nsPerDay \<le> (M + 6) * nsPerDay"
    using p by (simp_all add: mult_right_mono)
  then have "M * nsPerDay \<le> D * nsPerDay" "D * nsPerDay \<le> M * nsPerDay + 6 * nsPerDay"
    by (simp_all add: algebra_simps)
  with t show "beginningOfWeek t \<le> t" "t < beginningOfWeek t + 7 * nsPerDay"
    unfolding b by linarith+
qed

lemma beginningOfWeek_Sunday:
  assumes "Weekday t = 0"
  shows "beginningOfWeek t + 7 * nsPerDay = startOfDay t + nsPerDay"
proof -
  define D where "D = t div nsPerDay"
  from assms have "(D + 4) mod 7 = 0" by (simp add: Weekday_def D_def)
  then have "(D + 3) mod 7 = 6" by presburger
  then show ?thesis
    by (simp add: beginningOfWeek_eq startOfDay_def D_def [symmetric] algebra_simps)
qed

lemma currentWeek_whole_seconds:
  assumes "now mod 1000000000 = 0"
  shows "sint (currentWeek (Some loan) now)
           = quot (Sub now (beginningOfWeek (CreatedAt loan))) (7 * nsPerDay)"
proof -
  define a where "a = beginningOfWeek (CreatedAt loan)"
  have a: "a mod 1000000000 = 0" unfolding a_def by (rule beginningOfWeek_facts)
  consider "now - a < minDuration" | "maxDuration < now - a"
    | "minDuration \<le> now - a" "now - a \<le> maxDuration" by linarith
  then have "trunc_int (float64 (Hours (Sub now a) / (24 * 7))) = quot (Sub now a) (7 * nsPerDay)"
  proof cases
    case 1
    then have "Sub now a = - (2 ^ 63)" by (simp add: Sub_def minDuration_def)
    moreover have "quot (- (2 ^ 63)) (7 * nsPerDay) = - 15250" by code_simp
    ultimately show ?thesis by (simp only: week_min)
  next
    case 2
    then have "Sub now a = 2 ^ 63 - 1" using 2
      by (simp add: Sub_def minDuration_def maxDuration_def)
    moreover have "quot (2 ^ 63 - 1) (7 * nsPerDay) = 15250" by code_simp
    moreover have "trunc_int (float64 (Hours (2 ^ 63 - 1) / (24 * 7))) = 15250" by code_simp
    ultimately show ?thesis by simp
  next
    case 3
    then have s: "Sub now a = now - a" by (simp add: Sub_def)
    have "(now - a) mod 1000000000 = 0" using assms a by (simp add: mod_diff_eq [symmetric])
    moreover from 3 have "- (2 ^ 63) \<le> now - a" "now - a \<le> 2 ^ 63"
      by (simp_all add: minDuration_def maxDuration_def)
    ultimately show ?thesis unfolding s by (intro week_whole_seconds)
  qed
  then show ?thesis by (simp only: sint_currentWeek a_def)
qed

lemma currentWeek_at_offset:
  assumes "k mod 1000000000 = 0" "- (2 ^ 63) \<le> k" "k < 2 ^ 63"
  shows "sint (currentWeek (Some loan) (beginningOfWeek (CreatedAt loan) + k))
           = quot k (7 * nsPerDay)"
proof -
  have "(beginningOfWeek (CreatedAt loan) + k) mod 1000000000 = 0"
    using assms(1) beginningOfWeek_facts(2) [of "CreatedAt loan"]
    by (simp add: mod_add_eq [symmetric])
  from currentWeek_whole_seconds [OF this, of loan] assms(2,3) show ?thesis
    by (simp add: Sub_def minDuration_def maxDuration_def)
qed

text \<open>
  The anchor \<open>beginningOfWeek (CreatedAt loan)\<close> is the Monday 00:00 UTC of the week of
  the creation timestamp. \<^verbatim>\<open>currentWeek\<close> divides the elapsed time
  \<^verbatim>\<open>now.Sub(anchor)\<close> by \<open>7 \<times> 24\<close> hours in \<^verbatim>\<open>float64\<close> and converts the quotient to
  \<^verbatim>\<open>int32\<close>, which truncates toward zero. For every \<open>now\<close> that is a whole number
  of seconds the result is the elapsed time divided by \<open>7 \<times> 24\<close> hours, truncated toward
  zero: the floor for \<open>now\<close> at or after the anchor. It is 0 from 7 days less one second
  before the anchor up to the anchor, and negative for every \<open>now\<close> 7 days or more before
  the anchor. A loan created on a Sunday is in week 1 at the next midnight, and in week 1
  or later from then on. A nil loan is in week 0.
\<close>

lemma currentWeek_truncated_weeks:
  "currentWeek None now = 0
   \<and> beginningOfWeek (CreatedAt loan) mod nsPerDay = 0
   \<and> Weekday (beginningOfWeek (CreatedAt loan)) = 1
   \<and> beginningOfWeek (CreatedAt loan) \<le> CreatedAt loan
   \<and> CreatedAt loan < beginningOfWeek (CreatedAt loan) + 7 * nsPerDay
   \<and> (now mod 1000000000 = 0 \<longrightarrow>
        sint (currentWeek (Some loan) now)
          = quot (Sub now (beginningOfWeek (CreatedAt loan))) (7 * nsPerDay))
   \<and> (now mod 1000000000 = 0 \<and> beginningOfWeek (CreatedAt loan) \<le> now
        \<and> now - beginningOfWeek (CreatedAt loan) \<le> maxDuration \<longrightarrow>
        sint (currentWeek (Some loan) now)
          = (now - beginningOfWeek (CreatedAt loan)) div (7 * nsPerDay))
   \<and> (beginningOfWeek (CreatedAt loan) - 7 * nsPerDay + 1000000000 \<le> now
        \<and> now \<le> beginningOfWeek (CreatedAt loan) \<longrightarrow>
        sint (currentWeek (Some loan) now) = 0)
   \<and> (now \<le> beginningOfWeek (CreatedAt loan) - 7 * nsPerDay \<longrightarrow>
        sint (currentWeek (Some loan) now) < 0)
   \<and> (Weekday (CreatedAt loan) = 0 \<longrightarrow>
        beginningOfWeek (CreatedAt loan) + 7 * nsPerDay = startOfDay (CreatedAt loan) + nsPerDay
        \<and> sint (currentWeek (Some loan) (startOfDay (CreatedAt loan) + nsPerDay)) = 1
        \<and> (startOfDay (CreatedAt loan) + nsPerDay \<le> now \<longrightarrow>
             1 \<le> sint (currentWeek (Some loan) now)))"
proof -
  define a where "a = beginningOfWeek (CreatedAt loan)"
  note f = beginningOfWeek_facts [of "CreatedAt loan", folded a_def]
  have w: "sint (currentWeek (Some loan) now) = quot (Sub now a) (7 * nsPerDay)"
    if "now mod 1000000000 = 0"
    unfolding a_def using that by (rule currentWeek_whole_seconds)
  have fl: "sint (currentWeek (Some loan) now) = (now - a) div (7 * nsPerDay)"
    if "now mod 1000000000 = 0" "a \<le> now" "now - a \<le> maxDuration"
  proof -
    from that(2,3) have "Sub now a = now - a"
      by (simp add: Sub_def minDuration_def maxDuration_def)
    with w [OF that(1)] that(2) show ?thesis
      by (simp add: quot_nonneg nsPerDay_def nsPerHour_def)
  qed
  have at0: "sint (currentWeek (Some loan) a) = 0"
    using currentWeek_at_offset [of 0 loan] by (simp add: a_def quot_def)
  have at1: "sint (currentWeek (Some loan) (a + 7 * nsPerDay)) = 1"
    using currentWeek_at_offset [of "7 * nsPerDay" loan]
    by (simp add: a_def quot_def nsPerDay_def nsPerHour_def)
  have atm: "sint (currentWeek (Some loan) (a - 7 * nsPerDay)) = - 1"
    using currentWeek_at_offset [of "- (7 * nsPerDay)" loan]
    by (simp add: a_def quot_def nsPerDay_def nsPerHour_def)
  have ats: "sint (currentWeek (Some loan) (a - 7 * nsPerDay + 1000000000)) = 0"
    using currentWeek_at_offset [of "- (7 * nsPerDay) + 1000000000" loan]
    by (simp add: a_def quot_def nsPerDay_def nsPerHour_def)
  have z: "sint (currentWeek (Some loan) now) = 0"
    if "a - 7 * nsPerDay + 1000000000 \<le> now" "now \<le> a"
    using currentWeek_mono [OF that(1), of loan] currentWeek_mono [OF that(2), of loan]
    by (simp only: ats at0)
  have n: "sint (currentWeek (Some loan) now) < 0" if "now \<le> a - 7 * nsPerDay"
    using currentWeek_mono [OF that, of loan] by (simp only: atm)
  have su: "a + 7 * nsPerDay = startOfDay (CreatedAt loan) + nsPerDay
      \<and> sint (currentWeek (Some loan) (startOfDay (CreatedAt loan) + nsPerDay)) = 1
      \<and> (startOfDay (CreatedAt loan) + nsPerDay \<le> now \<longrightarrow>
             1 \<le> sint (currentWeek (Some loan) now))"
    if "Weekday (CreatedAt loan) = 0"
  proof -
    from beginningOfWeek_Sunday [OF that]
    have e: "a + 7 * nsPerDay = startOfDay (CreatedAt loan) + nsPerDay" by (simp add: a_def)
    have "1 \<le> sint (currentWeek (Some loan) now)" if "a + 7 * nsPerDay \<le> now"
      using currentWeek_mono [OF that, of loan] by (simp only: at1)
    with at1 show ?thesis unfolding e by simp
  qed
  have nil: "currentWeek None now = 0" by (simp add: currentWeek_def)
  show ?thesis
    unfolding a_def [symmetric]
    using nil f(1,3,4,5) w fl z n su by (intro conjI impI) (elim conjE | assumption | simp only:)+
qed

text \<open>
  C2. The loan of the repository's test of \<^verbatim>\<open>currentWeek\<close>, created on Monday 2023-05-01
  00:00 UTC, which is its own anchor. One second before the anchor the week is 0, as the
  test "now in the past" expects. On Monday 2023-04-17 00:00 UTC, 14 days before the
  anchor, the week is -2, not 0: the conversion to \<^verbatim>\<open>int32\<close> truncates toward zero and
  nothing clamps the result. One nanosecond before 25 weeks have elapsed the week is
  already 25, not the floor 24: \<^verbatim>\<open>Hours()\<close> rounds the elapsed time to 4200 hours.
\<close>

theorem currentWeek_negative_before_anchor:
  "beginningOfWeek (CreatedAt
     \<lparr> ID = 1, UserID = 7, Amount = 1000, PaymentDurationWeeks = 10,
       PaymentAmount = 1100, Status = LoanStatusOngoing,
       CreatedAt = 1682899200000000000, UpdatedAt = 1682899200000000000 \<rparr>)
     = 1682899200000000000
   \<and> sint (currentWeek
     (Some \<lparr> ID = 1, UserID = 7, Amount = 1000, PaymentDurationWeeks = 10,
             PaymentAmount = 1100, Status = LoanStatusOngoing,
             CreatedAt = 1682899200000000000, UpdatedAt = 1682899200000000000 \<rparr>)
     1682899199000000000) = 0
   \<and> (1681689600000000000 :: int) = 1682899200000000000 - 14 * nsPerDay
   \<and> sint (currentWeek
     (Some \<lparr> ID = 1, UserID = 7, Amount = 1000, PaymentDurationWeeks = 10,
             PaymentAmount = 1100, Status = LoanStatusOngoing,
             CreatedAt = 1682899200000000000, UpdatedAt = 1682899200000000000 \<rparr>)
     1681689600000000000) = - 2
   \<and> (1698019199999999999 :: int) = 1682899200000000000 + 25 * (7 * nsPerDay) - 1
   \<and> sint (currentWeek
     (Some \<lparr> ID = 1, UserID = 7, Amount = 1000, PaymentDurationWeeks = 10,
             PaymentAmount = 1100, Status = LoanStatusOngoing,
             CreatedAt = 1682899200000000000, UpdatedAt = 1682899200000000000 \<rparr>)
     1698019199999999999) = 25
   \<and> (1698019199999999999 - 1682899200000000000 :: int) div (7 * nsPerDay) = 24"
  by code_simp

subsection \<open>The current bill\<close>

text \<open>For a loan with a positive total and a duration of at least one week the weekly
  amount is a whole number that is not negative, and what is due before the last week
  never exceeds the total.\<close>

lemma weeklyPaymentAmount_valid:
  assumes "1 \<le> sint (PaymentDurationWeeks loan)" "0 < PaymentAmount loan"
  shows "\<exists>k. weeklyPaymentAmount (Some loan) = Inr (of_int k) \<and> 0 \<le> k
    \<and> (\<forall>c. c < sint (PaymentDurationWeeks loan) \<longrightarrow> of_int k * of_int c \<le> PaymentAmount loan)"
proof -
  let ?D = "sint (PaymentDurationWeeks loan)"
  define k where "k = trunc_int (of_int (round_half_away
       (PaymentAmount loan / of_int ?D * 10 ^ 16)) / 10 ^ 16)"
  from assms(1) have "?D \<noteq> 0" by simp
  from weeklyPaymentAmount_value [OF this]
  have 1: "weeklyPaymentAmount (Some loan) = Inr (of_int k)" by (simp only: k_def)
  note b = weekly_bound_aux [OF assms(1) sint_32_bounds(2) assms(2), folded k_def]
  from b(1) [of 0] assms(1) have "0 \<le> k" by simp
  with 1 b(2) show ?thesis by blast
qed

lemma CurrentBillAmount_valid:
  assumes "1 \<le> sint (PaymentDurationWeeks loan)" "0 < PaymentAmount loan"
  shows "\<exists>k. 0 \<le> k
    \<and> (\<forall>c. c < sint (PaymentDurationWeeks loan) \<longrightarrow> of_int k * of_int c \<le> PaymentAmount loan)
    \<and> (\<forall>now paid. CurrentBillAmount (Some loan) now paid =
        Inr (max ((if sint (currentWeek (Some loan) now) < sint (PaymentDurationWeeks loan)
                   then of_int k * of_int (sint (currentWeek (Some loan) now))
                   else PaymentAmount loan) - paid) 0))"
proof -
  from weeklyPaymentAmount_valid [OF assms] obtain k where
    k: "weeklyPaymentAmount (Some loan) = Inr (of_int k)" "0 \<le> k"
    "\<forall>c. c < sint (PaymentDurationWeeks loan) \<longrightarrow> of_int k * of_int c \<le> PaymentAmount loan"
    by blast
  have "CurrentBillAmount (Some loan) now paid =
        Inr (max ((if sint (currentWeek (Some loan) now) < sint (PaymentDurationWeeks loan)
                   then of_int k * of_int (sint (currentWeek (Some loan) now))
                   else PaymentAmount loan) - paid) 0)" for now paid
    by (simp add: CurrentBillAmount_def Let_def k(1) max_def)
  with k(2,3) show ?thesis by blast
qed

lemma validate_None:
  assumes "validate loan = None"
  shows "1 \<le> sint (PaymentDurationWeeks loan)" and "0 < PaymentAmount loan"
  using assms by (auto simp: validate_def split: if_splits)

text \<open>
  A nil loan has a bill of zero. A loan that passes \<^verbatim>\<open>validate\<close> has a duration of at
  least one week and a total above zero. For a loan with a duration of at least one week
  and a total above zero, and every paid amount, \<^verbatim>\<open>CurrentBillAmount\<close> returns a bill
  that is not negative and at most \<open>max (total - paid) 0\<close>; the bill is that maximum once
  \<^verbatim>\<open>currentWeek\<close> has reached the duration, which is the case from the anchor plus the
  duration on when the duration is at most 15250 weeks, the longest time that a
  \<^verbatim>\<open>time.Duration\<close> holds; and the bill at a later time is never smaller.
\<close>

lemma CurrentBillAmount_monotone:
  "CurrentBillAmount None now paid = Inr 0
   \<and> (validate loan = None \<longrightarrow>
        1 \<le> sint (PaymentDurationWeeks loan) \<and> 0 < PaymentAmount loan)
   \<and> (1 \<le> sint (PaymentDurationWeeks loan) \<and> 0 < PaymentAmount loan \<longrightarrow>
        (\<exists>b. CurrentBillAmount (Some loan) now paid = Inr b
           \<and> 0 \<le> b
           \<and> b \<le> max (PaymentAmount loan - paid) 0
           \<and> (sint (PaymentDurationWeeks loan) \<le> sint (currentWeek (Some loan) now)
                \<longrightarrow> b = max (PaymentAmount loan - paid) 0)
           \<and> (sint (PaymentDurationWeeks loan) \<le> 15250
                \<and> beginningOfWeek (CreatedAt loan)
                     + sint (PaymentDurationWeeks loan) * (7 * nsPerDay) \<le> now
                \<longrightarrow> b = max (PaymentAmount loan - paid) 0)
           \<and> (now \<le> later \<longrightarrow>
                (\<exists>b'. CurrentBillAmount (Some loan) later paid = Inr b' \<and> b \<le> b'))))"
proof (intro conjI impI)
  show "CurrentBillAmount None now paid = Inr 0" by (simp add: CurrentBillAmount_def)
next
  assume "validate loan = None"
  then show "1 \<le> sint (PaymentDurationWeeks loan)" "0 < PaymentAmount loan"
    by (rule validate_None)+
next
  assume v: "1 \<le> sint (PaymentDurationWeeks loan) \<and> 0 < PaymentAmount loan"
  let ?D = "sint (PaymentDurationWeeks loan)"
  let ?T = "PaymentAmount loan"
  let ?w = "\<lambda>t. sint (currentWeek (Some loan) t)"
  from v have "1 \<le> ?D" "0 < ?T" by simp_all
  from CurrentBillAmount_valid [OF this] obtain k where k: "0 \<le> k"
    "\<And>c. c < ?D \<Longrightarrow> of_int k * of_int c \<le> ?T"
    and bill: "\<And>t p. CurrentBillAmount (Some loan) t p =
        Inr (max ((if ?w t < ?D then of_int k * of_int (?w t) else ?T) - p) 0)"
    by blast
  define ob where "ob t = (if ?w t < ?D then of_int k * of_int (?w t) else ?T)" for t
  have ob_le: "ob t \<le> ?T" for t using k(2) [of "?w t"] by (simp add: ob_def)
  have ob_mono: "ob t \<le> ob t'" if "t \<le> t'" for t t'
  proof (cases "?w t' < ?D")
    case True
    from currentWeek_mono [OF that, of loan] True have "?w t < ?D" by simp
    moreover have "(of_int k :: rat) * of_int (?w t) \<le> of_int k * of_int (?w t')"
      using currentWeek_mono [OF that, of loan] k(1) by (intro mult_left_mono) simp_all
    ultimately show ?thesis using True by (simp add: ob_def)
  next
    case False
    then show ?thesis using ob_le [of t] by (simp add: ob_def)
  qed
  have sat: "ob t = ?T" if "?D \<le> ?w t" for t using that by (simp add: ob_def)
  have elapsed: "?D \<le> ?w now"
    if "?D \<le> 15250" "beginningOfWeek (CreatedAt loan) + ?D * (7 * nsPerDay) \<le> now"
  proof -
    have "(?D * (7 * nsPerDay)) mod 1000000000 = 0" by (simp add: nsPerDay_def nsPerHour_def)
    moreover have "- (2 ^ 63) \<le> ?D * (7 * nsPerDay)" "?D * (7 * nsPerDay) < 2 ^ 63"
      using v that(1) by (simp_all add: nsPerDay_def nsPerHour_def)
    ultimately have "?w (beginningOfWeek (CreatedAt loan) + ?D * (7 * nsPerDay))
        = quot (?D * (7 * nsPerDay)) (7 * nsPerDay)" by (rule currentWeek_at_offset)
    also have "\<dots> = ?D" using v by (simp add: quot_nonneg nsPerDay_def nsPerHour_def)
    finally show ?thesis using currentWeek_mono [OF that(2), of loan] by simp
  qed
  have b: "CurrentBillAmount (Some loan) t p = Inr (max (ob t - p) 0)" for t p
    by (simp only: bill ob_def)
  show "\<exists>b. CurrentBillAmount (Some loan) now paid = Inr b
           \<and> 0 \<le> b
           \<and> b \<le> max (PaymentAmount loan - paid) 0
           \<and> (sint (PaymentDurationWeeks loan) \<le> sint (currentWeek (Some loan) now)
                \<longrightarrow> b = max (PaymentAmount loan - paid) 0)
           \<and> (sint (PaymentDurationWeeks loan) \<le> 15250
                \<and> beginningOfWeek (CreatedAt loan)
                     + sint (PaymentDurationWeeks loan) * (7 * nsPerDay) \<le> now
                \<longrightarrow> b = max (PaymentAmount loan - paid) 0)
           \<and> (now \<le> later \<longrightarrow>
                (\<exists>b'. CurrentBillAmount (Some loan) later paid = Inr b' \<and> b \<le> b'))"
  proof (rule exI [of _ "max (ob now - paid) 0"], intro conjI impI)
    show "CurrentBillAmount (Some loan) now paid = Inr (max (ob now - paid) 0)" by (rule b)
    show "0 \<le> max (ob now - paid) 0" by simp
    show "max (ob now - paid) 0 \<le> max (?T - paid) 0" using ob_le [of now] by simp
    show "max (ob now - paid) 0 = max (?T - paid) 0" if "?D \<le> ?w now"
      using sat [OF that] by simp
    show "max (ob now - paid) 0 = max (?T - paid) 0"
      if "?D \<le> 15250 \<and> beginningOfWeek (CreatedAt loan) + ?D * (7 * nsPerDay) \<le> now"
      using sat [OF elapsed] that by simp
    show "\<exists>b'. CurrentBillAmount (Some loan) later paid = Inr b' \<and> max (ob now - paid) 0 \<le> b'"
      if "now \<le> later"
      using ob_mono [OF that] by (intro exI [of _ "max (ob later - paid) 0"]) (simp add: b)
  qed
qed

text \<open>
  C3. The bill is meant to be capped at the total payment amount once the term has
  elapsed. The loan that \<^verbatim>\<open>CreateLoan\<close> returns for a principal of 181818 over 20000
  weeks has a total of 200000 and a weekly amount of 10. When its 20000 weeks have elapsed
  since the anchor, with nothing paid, the bill is 152500, and at no time is it more:
  \<^verbatim>\<open>now.Sub(anchor)\<close> saturates at the longest \<^verbatim>\<open>time.Duration\<close>, so the week never
  exceeds 15250 and never reaches the duration.
\<close>

theorem CurrentBillAmount_below_total_after_term:
  "CreateLoan (Inr 1) 1736899200000000000 7 (Decimal 181818 0) 20000
     = Inr (Inr \<lparr> ID = 1, UserID = 7, Amount = 181818, PaymentDurationWeeks = 20000,
             PaymentAmount = 200000, Status = LoanStatusOngoing,
             CreatedAt = 1736899200000000000, UpdatedAt = 1736899200000000000 \<rparr>)
   \<and> beginningOfWeek 1736899200000000000 + 20000 * (7 * nsPerDay) = 13832726400000000000
   \<and> CurrentBillAmount
       (Some \<lparr> ID = 1, UserID = 7, Amount = 181818, PaymentDurationWeeks = 20000,
             PaymentAmount = 200000, Status = LoanStatusOngoing,
             CreatedAt = 1736899200000000000, UpdatedAt = 1736899200000000000 \<rparr>)
       13832726400000000000 0 = Inr 152500
   \<and> (\<forall>now. \<exists>bill. CurrentBillAmount
       (Some \<lparr> ID = 1, UserID = 7, Amount = 181818, PaymentDurationWeeks = 20000,
             PaymentAmount = 200000, Status = LoanStatusOngoing,
             CreatedAt = 1736899200000000000, UpdatedAt = 1736899200000000000 \<rparr>)
       now 0 = Inr bill \<and> bill \<le> 152500)"
proof -
  define loan where "loan = \<lparr> ID = 1, UserID = 7, Amount = 181818,
             PaymentDurationWeeks = 20000, PaymentAmount = 200000,
             Status = LoanStatusOngoing, CreatedAt = 1736899200000000000,
             UpdatedAt = 1736899200000000000 \<rparr>"
  have c: "CreateLoan (Inr 1) 1736899200000000000 7 (Decimal 181818 0) 20000 = Inr (Inr loan)"
    unfolding loan_def by code_simp
  have a: "beginningOfWeek 1736899200000000000 + 20000 * (7 * nsPerDay)
      = 13832726400000000000"
    by code_simp
  have e: "CurrentBillAmount (Some loan) 13832726400000000000 0 = Inr 152500"
    unfolding loan_def by code_simp
  have w: "weeklyPaymentAmount (Some loan) = Inr 10"
    unfolding loan_def by code_simp
  have d: "sint (PaymentDurationWeeks loan) = 20000"
    by (simp add: loan_def)
  have u: "\<exists>bill. CurrentBillAmount (Some loan) now 0 = Inr bill \<and> bill \<le> 152500" for now
  proof -
    define cw where "cw = sint (currentWeek (Some loan) now)"
    have "cw \<le> 15250"
      unfolding cw_def sint_currentWeek by (rule week_range [OF Sub_range])
    then have "(10 :: rat) * of_int cw \<le> 152500" by simp
    moreover from \<open>cw \<le> 15250\<close>
    have "CurrentBillAmount (Some loan) now 0
        = Inr (if (10 :: rat) * of_int cw < 0 then 0 else 10 * of_int cw)"
      by (simp add: CurrentBillAmount_def Let_def w d cw_def [symmetric])
    ultimately show ?thesis by simp
  qed
  from c a e u show ?thesis unfolding loan_def by simp
qed

subsection \<open>Delinquency\<close>

lemma IntPart_Round0:
  assumes "\<bar>q\<bar> < 2 ^ 63 - 1"
  shows "IntPart (Round0 q) = round_half_away q"
proof -
  from round_half_away_bounds [of q] assms
  have "- (2 ^ 63) < (of_int (round_half_away q) :: rat)"
    "(of_int (round_half_away q) :: rat) < 2 ^ 63" by linarith+
  then have "(of_int (- (2 ^ 63)) :: rat) < of_int (round_half_away q)"
    "(of_int (round_half_away q) :: rat) < of_int (2 ^ 63)" by simp_all
  then have "- (2 ^ 63) < round_half_away q" "round_half_away q < 2 ^ 63"
    by (simp_all only: of_int_less_iff)
  then have "sint (word_of_int (round_half_away q) :: 64 word) = round_half_away q"
    by (simp only: sint_sbintrunc') (rule signed_take_bit_int_eq_self, simp_all)
  then show ?thesis by (simp add: IntPart_def Round0_def)
qed

lemma delinquent_threshold:
  assumes "w \<noteq> 0" "\<bar>bill / w\<bar> < 2 ^ 62"
  shows "\<exists>q. Div bill w = Inr q
    \<and> (delinquencyThresholdWeeks < IntPart (Round0 q)
          \<longleftrightarrow> 5 / 2 - 1 / (2 * 10 ^ 16) \<le> bill / w)"
proof -
  define z where "z = bill / w"
  define y where "y = z * 10 ^ 16"
  define R where "R = round_half_away y"
  define q :: rat where "q = of_int R / 10 ^ 16"
  have d: "Div bill w = Inr q"
    using assms(1) by (simp add: Div_def DivisionPrecision_def q_def R_def y_def z_def)
  from round_half_away_bounds [of y]
  have "y - 1 / 2 \<le> of_int R" "of_int R \<le> y + 1 / 2" by (simp_all add: R_def)
  then have "z - 1 / (2 * 10 ^ 16) \<le> q" "q \<le> z + 1 / (2 * 10 ^ 16)"
    by (simp_all add: q_def y_def field_simps)
  moreover from assms(2) have "\<bar>z\<bar> < 2 ^ 62" by (simp only: z_def)
  ultimately have "\<bar>q\<bar> < 2 ^ 63 - 1" by simp
  then have "delinquencyThresholdWeeks < IntPart (Round0 q) \<longleftrightarrow> 3 \<le> round_half_away q"
    by (auto simp: IntPart_Round0 delinquencyThresholdWeeks_def)
  also have "\<dots> \<longleftrightarrow> of_int 3 - 1 / 2 \<le> q" by (rule round_half_away_ge_iff) simp
  also have "\<dots> \<longleftrightarrow> (of_int 25000000000000000 :: rat) \<le> of_int R"
    by (simp add: q_def field_simps)
  also have "\<dots> \<longleftrightarrow> 25000000000000000 \<le> R" by (simp only: of_int_le_iff)
  also have "\<dots> \<longleftrightarrow> of_int 25000000000000000 - 1 / 2 \<le> y"
    unfolding R_def by (rule round_half_away_ge_iff) simp
  also have "\<dots> \<longleftrightarrow> 5 / 2 - 1 / (2 * 10 ^ 16) \<le> z"
    by (simp add: y_def field_simps)
  finally show ?thesis using d unfolding z_def by blast
qed

lemma IsDelinquent_threshold:
  assumes "Status loan \<noteq> LoanStatusPaid" "PaymentAmount loan \<noteq> paid"
    "CurrentBillAmount (Some loan) now paid = Inr bill"
    "weeklyPaymentAmount (Some loan) = Inr w" "w \<noteq> 0" "\<bar>bill / w\<bar> < 2 ^ 62"
  shows "IsDelinquent (Some loan) now paid = Inr (5 / 2 - 1 / (2 * 10 ^ 16) \<le> bill / w)"
proof -
  from delinquent_threshold [OF assms(5,6)] obtain q where "Div bill w = Inr q"
    "delinquencyThresholdWeeks < IntPart (Round0 q)
          \<longleftrightarrow> 5 / 2 - 1 / (2 * 10 ^ 16) \<le> bill / w" by blast
  with assms(1-4) show ?thesis by (simp add: IsDelinquent_def)
qed

lemma weekly_1000_10:
  assumes "PaymentAmount loan = 1000" "PaymentDurationWeeks loan = 10"
  shows "weeklyPaymentAmount (Some loan) = Inr 100"
proof -
  have s: "sint (PaymentDurationWeeks loan) = 10" by (simp add: assms(2))
  have "\<lfloor>(of_int (1000 * 10 ^ 6) / 10 ^ 6 / of_int 10 :: rat)\<rfloor> = 100" by code_simp
  with weekly_floor_aux [of 10 "1000 * 10 ^ 6"] weeklyPaymentAmount_value [of loan]
  show ?thesis by (simp add: s assms(1))
qed

lemma IsDelinquent_1000_10:
  assumes "PaymentAmount loan = 1000" "PaymentDurationWeeks loan = 10"
    "Status loan = LoanStatusOngoing" "sint (currentWeek (Some loan) now) = c" "0 \<le> c" "c < 10"
  shows "IsDelinquent (Some loan) now 0 = Inr (3 \<le> c)"
proof -
  note w = weekly_1000_10 [OF assms(1,2)]
  have s: "sint (PaymentDurationWeeks loan) = 10" by (simp add: assms(2))
  have b: "CurrentBillAmount (Some loan) now 0 = Inr (100 * of_int c)"
    using assms(4-6) by (simp add: CurrentBillAmount_def Let_def w s)
  have "\<bar>(100 * of_int c :: rat) / 100\<bar> < 2 ^ 62"
  proof -
    have "(of_int c :: rat) < of_int 10" using assms(6) by (simp only: of_int_less_iff)
    moreover have "(0 :: rat) \<le> of_int c" using assms(5) by simp
    ultimately show ?thesis by simp
  qed
  from IsDelinquent_threshold [OF _ _ b w _ this] assms(1,3)
  have "IsDelinquent (Some loan) now 0
      = Inr (5 / 2 - 1 / (2 * 10 ^ 16) \<le> (100 * of_int c :: rat) / 100)"
    by (simp add: LoanStatusOngoing_def LoanStatusPaid_def)
  moreover have "(5 / 2 - 1 / (2 * 10 ^ 16) \<le> (100 * of_int c :: rat) / 100) \<longleftrightarrow> 3 \<le> c"
  proof
    assume "5 / 2 - 1 / (2 * 10 ^ 16) \<le> (100 * of_int c :: rat) / 100"
    then have "(of_int 2 :: rat) < of_int c" by simp
    then have "2 < c" by (simp only: of_int_less_iff)
    then show "3 \<le> c" by simp
  next
    assume "3 \<le> c"
    then have "(of_int 3 :: rat) \<le> of_int c" by (simp only: of_int_le_iff)
    then show "5 / 2 - 1 / (2 * 10 ^ 16) \<le> (100 * of_int c :: rat) / 100" by simp
  qed
  ultimately show ?thesis by simp
qed

text \<open>A time between two offsets from the anchor that are in the same week is in that
  week.\<close>

lemma currentWeek_sandwich:
  assumes "beginningOfWeek (CreatedAt loan) + lo \<le> now"
    "now \<le> beginningOfWeek (CreatedAt loan) + hi"
    "- (2 ^ 63) \<le> lo" "hi < 2 ^ 63"
    "trunc_int (float64 (Hours lo / (24 * 7))) = n"
    "trunc_int (float64 (Hours hi / (24 * 7))) = n"
  shows "sint (currentWeek (Some loan) now) = n"
proof -
  define a where "a = beginningOfWeek (CreatedAt loan)"
  from assms(1,2) have "lo \<le> hi" by simp
  with assms(3,4) have "Sub (a + lo) a = lo" "Sub (a + hi) a = hi"
    by (simp_all add: Sub_def minDuration_def maxDuration_def)
  with assms(5,6) have "sint (currentWeek (Some loan) (a + lo)) = n"
    "sint (currentWeek (Some loan) (a + hi)) = n"
    by (simp_all add: sint_currentWeek a_def [symmetric])
  with currentWeek_mono [OF assms(1), of loan] currentWeek_mono [OF assms(2), of loan]
  show ?thesis by (simp add: a_def)
qed

lemma currentWeek_14_21_days:
  "sint (currentWeek (Some loan) (CreatedAt loan + 14 * nsPerDay)) = 2"
  "sint (currentWeek (Some loan) (CreatedAt loan + 21 * nsPerDay)) = 3"
proof -
  note f = beginningOfWeek_facts(4,5) [of "CreatedAt loan"]
  have e: "trunc_int (float64 (Hours (14 * nsPerDay) / (24 * 7))) = 2"
    "trunc_int (float64 (Hours (21 * nsPerDay - 1) / (24 * 7))) = 2"
    "trunc_int (float64 (Hours (21 * nsPerDay) / (24 * 7))) = 3"
    "trunc_int (float64 (Hours (28 * nsPerDay - 1) / (24 * 7))) = 3"
    by code_simp+
  show "sint (currentWeek (Some loan) (CreatedAt loan + 14 * nsPerDay)) = 2"
    using f by (intro currentWeek_sandwich [OF _ _ _ _ e(1,2)])
      (simp_all add: nsPerDay_def nsPerHour_def)
  show "sint (currentWeek (Some loan) (CreatedAt loan + 21 * nsPerDay)) = 3"
    using f by (intro currentWeek_sandwich [OF _ _ _ _ e(3,4)])
      (simp_all add: nsPerDay_def nsPerHour_def)
qed

text \<open>
  \<^verbatim>\<open>IsDelinquent\<close> is false for a nil loan, for status Paid and for a paid amount equal
  to the total. Otherwise, when the weekly payment amount is not zero, the bill is divided
  by it with \<^verbatim>\<open>Div\<close>, which rounds the quotient half away from zero to 16 decimal
  places, and the result is rounded to the nearest whole number, ties away from zero, and
  compared with 2: for a quotient below \<open>2 ^ 62\<close> in absolute value the result is
  whether the exact quotient \<open>bill / weekly\<close> is at least \<open>2.5 - 5 / 10 ^ 17\<close>. For a
  total of 1000 over 10 weeks with nothing paid, the loan is not delinquent 14 days after
  its creation and delinquent 21 days after it.
\<close>

lemma IsDelinquent_rule:
  "IsDelinquent None now paid = Inr False
   \<and> (Status loan = LoanStatusPaid \<or> PaymentAmount loan = paid \<longrightarrow>
        IsDelinquent (Some loan) now paid = Inr False)
   \<and> (Status loan \<noteq> LoanStatusPaid \<and> PaymentAmount loan \<noteq> paid
        \<and> CurrentBillAmount (Some loan) now paid = Inr bill
        \<and> weeklyPaymentAmount (Some loan) = Inr w \<and> w \<noteq> 0 \<and> \<bar>bill / w\<bar> < 2 ^ 62 \<longrightarrow>
        IsDelinquent (Some loan) now paid = Inr (5 / 2 - 5 / 10 ^ 17 \<le> bill / w))
   \<and> (PaymentAmount loan = 1000 \<and> PaymentDurationWeeks loan = 10
        \<and> Status loan = LoanStatusOngoing \<longrightarrow>
        IsDelinquent (Some loan) (CreatedAt loan + 14 * nsPerDay) 0 = Inr False
        \<and> IsDelinquent (Some loan) (CreatedAt loan + 21 * nsPerDay) 0 = Inr True)"
proof (intro conjI impI)
  show "IsDelinquent None now paid = Inr False" by (simp add: IsDelinquent_def)
  show "IsDelinquent (Some loan) now paid = Inr False"
    if "Status loan = LoanStatusPaid \<or> PaymentAmount loan = paid"
    using that by (auto simp: IsDelinquent_def)
  show "IsDelinquent (Some loan) now paid = Inr (5 / 2 - 5 / 10 ^ 17 \<le> bill / w)"
    if "Status loan \<noteq> LoanStatusPaid \<and> PaymentAmount loan \<noteq> paid
        \<and> CurrentBillAmount (Some loan) now paid = Inr bill
        \<and> weeklyPaymentAmount (Some loan) = Inr w \<and> w \<noteq> 0 \<and> \<bar>bill / w\<bar> < 2 ^ 62"
  proof -
    from that have "IsDelinquent (Some loan) now paid
        = Inr (5 / 2 - 1 / (2 * 10 ^ 16) \<le> bill / w)"
      by (intro IsDelinquent_threshold) simp_all
    then show ?thesis by simp
  qed
next
  assume a: "PaymentAmount loan = 1000 \<and> PaymentDurationWeeks loan = 10
        \<and> Status loan = LoanStatusOngoing"
  from IsDelinquent_1000_10 [OF _ _ _ currentWeek_14_21_days(1)] a
  show "IsDelinquent (Some loan) (CreatedAt loan + 14 * nsPerDay) 0 = Inr False" by simp
  from IsDelinquent_1000_10 [OF _ _ _ currentWeek_14_21_days(2)] a
  show "IsDelinquent (Some loan) (CreatedAt loan + 21 * nsPerDay) 0 = Inr True" by simp
qed


text \<open>
  C6. A loan is delinquent when the number of unpaid weeks, the bill divided by the weekly
  payment amount and rounded to the nearest whole number, exceeds 2. The loan that
  \<^verbatim>\<open>CreateLoan\<close> returns for a principal of 3.99999999999999999999 over 2 weeks has a
  total of 4.99999999999999999999 and a weekly amount of 2. Three weeks after its anchor,
  with nothing paid, the bill is the total. The quotient 2.499999999999999999995 is nearer
  to 2 than to 3, and 2 does not exceed 2, but \<^verbatim>\<open>Div\<close> rounds the quotient to 2.5
  first, \<^verbatim>\<open>Round(0)\<close> gives 3, and \<^verbatim>\<open>IsDelinquent\<close> returns true.
\<close>

theorem IsDelinquent_double_rounding:
  "CreateLoan (Inr 1) 1682899200000000000 7 (Decimal 399999999999999999999 (- 20)) 2
     = Inr (Inr \<lparr> ID = 1, UserID = 7, Amount = 3.99999999999999999999,
             PaymentDurationWeeks = 2, PaymentAmount = 4.99999999999999999999,
             Status = LoanStatusOngoing,
             CreatedAt = 1682899200000000000, UpdatedAt = 1682899200000000000 \<rparr>)
   \<and> CurrentBillAmount
       (Some \<lparr> ID = 1, UserID = 7, Amount = 3.99999999999999999999, PaymentDurationWeeks = 2,
             PaymentAmount = 4.99999999999999999999, Status = LoanStatusOngoing,
             CreatedAt = 1682899200000000000, UpdatedAt = 1682899200000000000 \<rparr>)
       1684713600000000000 0 = Inr 4.99999999999999999999
   \<and> weeklyPaymentAmount
       (Some \<lparr> ID = 1, UserID = 7, Amount = 3.99999999999999999999, PaymentDurationWeeks = 2,
             PaymentAmount = 4.99999999999999999999, Status = LoanStatusOngoing,
             CreatedAt = 1682899200000000000, UpdatedAt = 1682899200000000000 \<rparr>) = Inr 2
   \<and> round_half_away (4.99999999999999999999 / 2) = 2
   \<and> IsDelinquent
       (Some \<lparr> ID = 1, UserID = 7, Amount = 3.99999999999999999999, PaymentDurationWeeks = 2,
             PaymentAmount = 4.99999999999999999999, Status = LoanStatusOngoing,
             CreatedAt = 1682899200000000000, UpdatedAt = 1682899200000000000 \<rparr>)
       1684713600000000000 0 = Inr True"
  by code_simp

subsection \<open>Division by a zero weekly amount\<close>

text \<open>
  C10. The loan that \<^verbatim>\<open>CreateLoan\<close> accepts for a principal of 1 over 3 weeks has a
  total of 2 and a weekly payment amount of \<open>RoundDown(2 / 3) = 0\<close>. It is Ongoing and
  nothing is paid, and \<^verbatim>\<open>IsDelinquent\<close> divides the bill by that zero: the call panics
  at every time \<open>now\<close>.
\<close>

theorem IsDelinquent_division_by_zero:
  "CreateLoan (Inr 1) 1736899200000000000 7 (Decimal 1 0) 3
     = Inr (Inr \<lparr> ID = 1, UserID = 7, Amount = 1, PaymentDurationWeeks = 3,
             PaymentAmount = 2, Status = LoanStatusOngoing,
             CreatedAt = 1736899200000000000, UpdatedAt = 1736899200000000000 \<rparr>)
   \<and> weeklyPaymentAmount
        (Some \<lparr> ID = 1, UserID = 7, Amount = 1, PaymentDurationWeeks = 3, PaymentAmount = 2,
             Status = LoanStatusOngoing, CreatedAt = 1736899200000000000,
             UpdatedAt = 1736899200000000000 \<rparr>) = Inr 0
   \<and> IsDelinquent
        (Some \<lparr> ID = 1, UserID = 7, Amount = 1, PaymentDurationWeeks = 3, PaymentAmount = 2,
             Status = LoanStatusOngoing, CreatedAt = 1736899200000000000,
             UpdatedAt = 1736899200000000000 \<rparr>) now 0 = Inl DivisionByZero"
proof -
  define loan where "loan = \<lparr> ID = 1, UserID = 7, Amount = 1, PaymentDurationWeeks = 3,
             PaymentAmount = 2, Status = LoanStatusOngoing, CreatedAt = 1736899200000000000,
             UpdatedAt = 1736899200000000000 \<rparr>"
  have w: "weeklyPaymentAmount (Some loan) = Inr 0"
    unfolding loan_def by code_simp
  have c: "CreateLoan (Inr 1) 1736899200000000000 7 (Decimal 1 0) 3 = Inr (Inr loan)"
    unfolding loan_def by code_simp
  have f: "Status loan \<noteq> LoanStatusPaid" "PaymentAmount loan \<noteq> 0"
    by (simp_all add: loan_def LoanStatusOngoing_def LoanStatusPaid_def)
  have d: "IsDelinquent (Some loan) now 0 = Inl DivisionByZero"
    using f by (simp add: IsDelinquent_def CurrentBillAmount_def w Let_def Div_def)
  from w c d show ?thesis unfolding loan_def by simp
qed

subsection \<open>Payment application: the failure cases\<close>

lemma CreateLoanPayment_error:
  "CreateLoanPayment newID now loanID amount = Inl e \<Longrightarrow>
     e \<noteq> Business ErrLoanNotFound \<and> e \<noteq> Business ErrLoanCurrentWeekAlreadyPaid
     \<and> e \<noteq> Business ErrLoanNotExactPaymentAmount"
  by (auto simp: CreateLoanPayment_def validate_payment_def Let_def
      ErrLoanNotFound_def ErrLoanCurrentWeekAlreadyPaid_def ErrLoanNotExactPaymentAmount_def
      ErrLoanPaymentEmptyID_def ErrLoanPaymentEmptyLoanID_def ErrLoanPaymentInvalidAmount_def
      ErrLoanPaymentEmptyCreatedAt_def ErrLoanPaymentEmptyUpdatedAt_def
      split: sum.splits if_splits option.splits)

lemma CurrentBillAmount_returns:
  assumes "sint (PaymentDurationWeeks loan) \<noteq> 0"
  shows "\<exists>bill. CurrentBillAmount (Some loan) now paid = Inr bill"
  by (simp add: CurrentBillAmount_def Let_def weeklyPaymentAmount_value [OF assms])

text \<open>
  C1. \<^verbatim>\<open>MakePayment\<close> on a nil loan fails with \<^verbatim>\<open>ErrLoanNotFound\<close>. For a loan
  \<^verbatim>\<open>CurrentBillAmount(now, paidAmount)\<close> returns a bill whenever the duration is not
  zero, and on a loan whose current bill is \<open>bill\<close>, \<^verbatim>\<open>MakePayment\<close> never fails with
  \<^verbatim>\<open>ErrLoanNotFound\<close>, it fails with \<^verbatim>\<open>ErrLoanCurrentWeekAlreadyPaid\<close> exactly when
  the bill is zero, and with \<^verbatim>\<open>ErrLoanNotExactPaymentAmount\<close> exactly when the bill is
  not zero and the payment amount differs from it. Whenever it fails, no payment record
  is returned, the update flag is false and the loan is unchanged.
\<close>

theorem MakePayment_failure_cases:
  "MakePayment newID createdNow updatedNow None now paidAmount paymentAmount
     = Inr \<lparr> loanPayment = None, shouldUpdateLoan = False,
             err = Some (Business ErrLoanNotFound), receiver = None \<rparr>
   \<and> (sint (PaymentDurationWeeks loan) \<noteq> 0 \<longrightarrow>
        (\<exists>b. CurrentBillAmount (Some loan) now paidAmount = Inr b))
   \<and> (CurrentBillAmount (Some loan) now paidAmount = Inr bill \<longrightarrow>
        (\<exists>r. MakePayment newID createdNow updatedNow (Some loan) now paidAmount paymentAmount
               = Inr r
           \<and> err r \<noteq> Some (Business ErrLoanNotFound)
           \<and> (err r = Some (Business ErrLoanCurrentWeekAlreadyPaid) \<longleftrightarrow> bill = 0)
           \<and> (err r = Some (Business ErrLoanNotExactPaymentAmount)
                \<longleftrightarrow> bill \<noteq> 0 \<and> paymentAmount \<noteq> bill)
           \<and> (err r \<noteq> None \<longrightarrow>
                loanPayment r = None \<and> \<not> shouldUpdateLoan r \<and> receiver r = Some loan)))"
proof (intro conjI impI)
  show "MakePayment newID createdNow updatedNow None now paidAmount paymentAmount
     = Inr \<lparr> loanPayment = None, shouldUpdateLoan = False,
             err = Some (Business ErrLoanNotFound), receiver = None \<rparr>"
    by (simp add: MakePayment_def)
next
  assume "sint (PaymentDurationWeeks loan) \<noteq> 0"
  then show "\<exists>b. CurrentBillAmount (Some loan) now paidAmount = Inr b"
    by (rule CurrentBillAmount_returns)
next
  assume b: "CurrentBillAmount (Some loan) now paidAmount = Inr bill"
  have ne: "ErrLoanCurrentWeekAlreadyPaid \<noteq> ErrLoanNotFound"
    "ErrLoanNotExactPaymentAmount \<noteq> ErrLoanNotFound"
    "ErrLoanCurrentWeekAlreadyPaid \<noteq> ErrLoanNotExactPaymentAmount"
    by (simp_all add: ErrLoanNotFound_def ErrLoanCurrentWeekAlreadyPaid_def
        ErrLoanNotExactPaymentAmount_def)
  show "\<exists>r. MakePayment newID createdNow updatedNow (Some loan) now paidAmount paymentAmount
               = Inr r
           \<and> err r \<noteq> Some (Business ErrLoanNotFound)
           \<and> (err r = Some (Business ErrLoanCurrentWeekAlreadyPaid) \<longleftrightarrow> bill = 0)
           \<and> (err r = Some (Business ErrLoanNotExactPaymentAmount)
                \<longleftrightarrow> bill \<noteq> 0 \<and> paymentAmount \<noteq> bill)
           \<and> (err r \<noteq> None \<longrightarrow>
                loanPayment r = None \<and> \<not> shouldUpdateLoan r \<and> receiver r = Some loan)"
  proof (cases "CreateLoanPayment newID createdNow (ID loan) paymentAmount")
    case (Inl e)
    from CreateLoanPayment_error [OF Inl] b Inl ne show ?thesis
      by (auto simp: MakePayment_def)
  next
    case (Inr lp)
    with b ne show ?thesis
      by (auto simp: MakePayment_def)
  qed
qed

theorem MakePayment_failure_cases_witness:
  "CurrentBillAmount
     (Some \<lparr> ID = 1, UserID = 7, Amount = 1000, PaymentDurationWeeks = 10,
             PaymentAmount = 1100, Status = LoanStatusOngoing,
             CreatedAt = 1682899200000000000, UpdatedAt = 1682899200000000000 \<rparr>)
     1684108800000000000 0 = Inr 220
   \<and> MakePayment (Inr 5) 1684108800000000000 1684108800000000001
     (Some \<lparr> ID = 1, UserID = 7, Amount = 1000, PaymentDurationWeeks = 10,
             PaymentAmount = 1100, Status = LoanStatusOngoing,
             CreatedAt = 1682899200000000000, UpdatedAt = 1682899200000000000 \<rparr>)
     1684108800000000000 0 100
     = Inr \<lparr> loanPayment = None, shouldUpdateLoan = False,
             err = Some (Business ErrLoanNotExactPaymentAmount),
             receiver = Some \<lparr> ID = 1, UserID = 7, Amount = 1000, PaymentDurationWeeks = 10,
               PaymentAmount = 1100, Status = LoanStatusOngoing,
               CreatedAt = 1682899200000000000, UpdatedAt = 1682899200000000000 \<rparr> \<rparr>"
proof -
  define loan where "loan = \<lparr> ID = 1, UserID = 7, Amount = 1000, PaymentDurationWeeks = 10,
             PaymentAmount = 1100, Status = LoanStatusOngoing,
             CreatedAt = 1682899200000000000, UpdatedAt = 1682899200000000000 \<rparr>"
  have b: "CurrentBillAmount (Some loan) 1684108800000000000 0 = Inr 220"
    unfolding loan_def by code_simp
  from MakePayment_failure_cases
    [where loan = loan and now = 1684108800000000000 and paidAmount = 0 and bill = 220
       and newID = "Inr 5" and createdNow = 1684108800000000000
       and updatedNow = 1684108800000000001 and paymentAmount = 100] b
  obtain r where r: "MakePayment (Inr 5) 1684108800000000000 1684108800000000001 (Some loan)
      1684108800000000000 0 100 = Inr r"
    and e: "err r = Some (Business ErrLoanNotExactPaymentAmount)"
    and f: "loanPayment r = None \<and> \<not> shouldUpdateLoan r \<and> receiver r = Some loan"
    by auto
  from e f have "r = \<lparr> loanPayment = None, shouldUpdateLoan = False,
             err = Some (Business ErrLoanNotExactPaymentAmount), receiver = Some loan \<rparr>"
    by (cases r) simp
  with r b show ?thesis unfolding loan_def by simp
qed

subsection \<open>Payment application: completion\<close>

lemma CreateLoanPayment_Amount:
  "CreateLoanPayment newID now loanID amount = Inr lp \<Longrightarrow> lp_Amount lp = amount"
  by (auto simp: CreateLoanPayment_def Let_def split: sum.splits option.splits)

lemma MakePayment_success:
  assumes "MakePayment newID createdNow updatedNow (Some loan) now paid amount = Inr r"
    "err r = None"
  shows "\<exists>lp. loanPayment r = Some lp \<and> lp_Amount lp = amount
    \<and> shouldUpdateLoan r = (paid + amount = PaymentAmount loan)
    \<and> receiver r = Some (if paid + amount = PaymentAmount loan
                          then loan\<lparr> Status := LoanStatusPaid, UpdatedAt := updatedNow \<rparr>
                          else loan)"
  using assms
  by (auto simp: MakePayment_def dest: CreateLoanPayment_Amount
      split: sum.splits if_splits)

lemma MakePayment_after_completion:
  assumes "1 \<le> sint (PaymentDurationWeeks loan)" "0 < PaymentAmount loan"
    "MakePayment newID createdNow updatedNow (Some loan) now (PaymentAmount loan) amount = Inr r"
  shows "err r = Some (Business ErrLoanCurrentWeekAlreadyPaid)"
proof -
  from CurrentBillAmount_valid [OF assms(1,2)] obtain k where
    k: "\<forall>c. c < sint (PaymentDurationWeeks loan) \<longrightarrow> of_int k * of_int c \<le> PaymentAmount loan"
    and b: "\<forall>now paid. CurrentBillAmount (Some loan) now paid =
        Inr (max ((if sint (currentWeek (Some loan) now) < sint (PaymentDurationWeeks loan)
                   then of_int k * of_int (sint (currentWeek (Some loan) now))
                   else PaymentAmount loan) - paid) 0)"
    by blast
  have "CurrentBillAmount (Some loan) now (PaymentAmount loan) = Inr 0"
    using k by (simp add: b max_def)
  with assms(3) show ?thesis by (auto simp: MakePayment_def)
qed

lemma MakePayments_after_completion:
  assumes "1 \<le> sint (PaymentDurationWeeks loan)" "0 < PaymentAmount loan"
    "MakePayments loan (PaymentAmount loan) calls = Some (flags, loan', paid')"
  shows "calls = [] \<and> flags = [] \<and> loan' = loan \<and> paid' = PaymentAmount loan"
proof (cases calls)
  case Nil
  with assms(3) show ?thesis by auto
next
  case (Cons c cs)
  obtain newID createdNow updatedNow now amount
    where c: "c = (newID, createdNow, updatedNow, now, amount)" by (cases c)
  show ?thesis
  proof (cases "MakePayment newID createdNow updatedNow (Some loan) now (PaymentAmount loan)
      amount")
    case (Inl p)
    with assms(3) Cons c show ?thesis by simp
  next
    case (Inr r)
    from MakePayment_after_completion [OF assms(1,2) Inr] assms(3) Cons c Inr
    show ?thesis by simp
  qed
qed

lemma MakePayments_flags:
  assumes "1 \<le> sint (PaymentDurationWeeks loan)" "0 < PaymentAmount loan"
    "MakePayments loan paid calls = Some (flags, loan', paid')"
  shows "length flags = length calls \<and> True \<notin> set (butlast flags)
    \<and> (flags \<noteq> [] \<and> last flags \<longrightarrow> Status loan' = LoanStatusPaid \<and> paid' = PaymentAmount loan)
    \<and> (\<not> (flags \<noteq> [] \<and> last flags) \<longrightarrow> loan' = loan)
    \<and> (flags \<noteq> [] \<and> paid' = PaymentAmount loan \<longrightarrow> last flags)"
  using assms(3)
proof (induction calls arbitrary: paid flags)
  case Nil
  then show ?case by simp
next
  case (Cons c cs)
  obtain newID createdNow updatedNow now amount
    where c: "c = (newID, createdNow, updatedNow, now, amount)" by (cases c)
  from Cons.prems c obtain r where
    r: "MakePayment newID createdNow updatedNow (Some loan) now paid amount = Inr r"
    by (cases "MakePayment newID createdNow updatedNow (Some loan) now paid amount") simp_all
  from Cons.prems c r have e: "err r = None"
    by (auto split: option.splits)
  from MakePayment_success [OF r e] obtain lp where lp: "loanPayment r = Some lp"
    "lp_Amount lp = amount" "shouldUpdateLoan r = (paid + amount = PaymentAmount loan)"
    "receiver r = Some (if paid + amount = PaymentAmount loan
                          then loan\<lparr> Status := LoanStatusPaid, UpdatedAt := updatedNow \<rparr>
                          else loan)" by blast
  show ?case
  proof (cases "paid + amount = PaymentAmount loan")
    case True
    define loan1 where "loan1 = loan\<lparr> Status := LoanStatusPaid, UpdatedAt := updatedNow \<rparr>"
    from Cons.prems c r e lp True obtain fs where
      fs: "MakePayments loan1 (PaymentAmount loan1) cs = Some (fs, loan', paid')"
      "flags = True # fs"
      by (auto simp: loan1_def split: option.splits)
    have "1 \<le> sint (PaymentDurationWeeks loan1)" "0 < PaymentAmount loan1"
      using assms(1,2) by (simp_all add: loan1_def)
    from MakePayments_after_completion [OF this fs(1)] fs(2)
    show ?thesis by (simp add: loan1_def)
  next
    case False
    from Cons.prems c r e lp False obtain fs where
      fs: "MakePayments loan (paid + amount) cs = Some (fs, loan', paid')"
      "flags = False # fs"
      by (auto split: option.splits)
    from Cons.IH [OF fs(1)] fs(1) False show ?thesis
      by (cases cs) (auto simp: fs(2))
  qed
qed

text \<open>
  C7. A successful \<^verbatim>\<open>MakePayment\<close> returns a payment record. If the paid amount plus
  the payment equals the total, the flag is true and the loan is the receiver with status
  Paid and the update timestamp refreshed; otherwise the flag is false and the loan is
  unchanged. In a run of successful payments on an Ongoing loan with a duration of at
  least one week and a total above zero, no call but the last sets the flag, the loan ends
  Paid exactly when the last call set it, which is exactly when the paid amount reached
  the total, and the loan is unchanged otherwise.
\<close>

theorem MakePayment_completion:
  "(MakePayment newID createdNow updatedNow (Some loan) now paid amount = Inr r \<and> err r = None
      \<longrightarrow> loanPayment r \<noteq> None
        \<and> (paid + amount = PaymentAmount loan \<longrightarrow>
             shouldUpdateLoan r
             \<and> receiver r = Some (loan\<lparr> Status := LoanStatusPaid, UpdatedAt := updatedNow \<rparr>))
        \<and> (paid + amount \<noteq> PaymentAmount loan \<longrightarrow>
             \<not> shouldUpdateLoan r \<and> receiver r = Some loan))
   \<and> (1 \<le> sint (PaymentDurationWeeks loan) \<and> 0 < PaymentAmount loan
      \<and> Status loan = LoanStatusOngoing
      \<and> MakePayments loan paid calls = Some (flags, loan', paid')
      \<longrightarrow> length flags = length calls
        \<and> True \<notin> set (butlast flags)
        \<and> (Status loan' = LoanStatusPaid \<longleftrightarrow> flags \<noteq> [] \<and> last flags)
        \<and> (flags \<noteq> [] \<longrightarrow> (last flags \<longleftrightarrow> paid' = PaymentAmount loan))
        \<and> (Status loan' \<noteq> LoanStatusPaid \<longrightarrow> loan' = loan))"
proof (intro conjI impI)
  assume a: "MakePayment newID createdNow updatedNow (Some loan) now paid amount = Inr r
    \<and> err r = None"
  then have r: "MakePayment newID createdNow updatedNow (Some loan) now paid amount = Inr r"
    and e: "err r = None" by simp_all
  note s = MakePayment_success [OF r e]
  from s show "loanPayment r \<noteq> None" by auto
  from s show "shouldUpdateLoan r" if "paid + amount = PaymentAmount loan"
    using that by auto
  from s show "receiver r = Some (loan\<lparr> Status := LoanStatusPaid, UpdatedAt := updatedNow \<rparr>)"
    if "paid + amount = PaymentAmount loan" using that by auto
  from s show "\<not> shouldUpdateLoan r" if "paid + amount \<noteq> PaymentAmount loan"
    using that by auto
  from s show "receiver r = Some loan" if "paid + amount \<noteq> PaymentAmount loan"
    using that by auto
next
  assume a: "1 \<le> sint (PaymentDurationWeeks loan) \<and> 0 < PaymentAmount loan
      \<and> Status loan = LoanStatusOngoing
      \<and> MakePayments loan paid calls = Some (flags, loan', paid')"
  then have v: "1 \<le> sint (PaymentDurationWeeks loan)" "0 < PaymentAmount loan"
    and o: "Status loan = LoanStatusOngoing"
    and m: "MakePayments loan paid calls = Some (flags, loan', paid')" by simp_all
  note f = MakePayments_flags [OF v m]
  have ne: "LoanStatusOngoing \<noteq> LoanStatusPaid"
    by (simp add: LoanStatusOngoing_def LoanStatusPaid_def)
  from f show "length flags = length calls" by simp
  from f show "True \<notin> set (butlast flags)" by simp
  from f o ne show "Status loan' = LoanStatusPaid \<longleftrightarrow> flags \<noteq> [] \<and> last flags" by auto
  from f show "last flags \<longleftrightarrow> paid' = PaymentAmount loan" if "flags \<noteq> []"
    using that by auto
  from f o ne show "loan' = loan" if "Status loan' \<noteq> LoanStatusPaid"
    using that by auto
qed

theorem MakePayment_completion_witness:
  "MakePayments
     \<lparr> ID = 1, UserID = 7, Amount = 100, PaymentDurationWeeks = 2, PaymentAmount = 110,
       Status = LoanStatusOngoing, CreatedAt = 1682899200000000000,
       UpdatedAt = 1682899200000000000 \<rparr>
     0
     [(Inr 11, 1683504000000000000, 1683504000000000001, 1683504000000000000, 55),
      (Inr 12, 1684108800000000000, 1684108800000000001, 1684108800000000000, 55)]
     = Some ([False, True],
         \<lparr> ID = 1, UserID = 7, Amount = 100, PaymentDurationWeeks = 2, PaymentAmount = 110,
           Status = LoanStatusPaid, CreatedAt = 1682899200000000000,
           UpdatedAt = 1684108800000000001 \<rparr>, 110)
   \<and> True \<notin> set (butlast [False, True])"
proof -
  have m: "MakePayments
     \<lparr> ID = 1, UserID = 7, Amount = 100, PaymentDurationWeeks = 2, PaymentAmount = 110,
       Status = LoanStatusOngoing, CreatedAt = 1682899200000000000,
       UpdatedAt = 1682899200000000000 \<rparr>
     0
     [(Inr 11, 1683504000000000000, 1683504000000000001, 1683504000000000000, 55),
      (Inr 12, 1684108800000000000, 1684108800000000001, 1684108800000000000, 55)]
     = Some ([False, True],
         \<lparr> ID = 1, UserID = 7, Amount = 100, PaymentDurationWeeks = 2, PaymentAmount = 110,
           Status = LoanStatusPaid, CreatedAt = 1682899200000000000,
           UpdatedAt = 1684108800000000001 \<rparr>, 110)"
    by code_simp
  from MakePayment_completion
    [where loan = "\<lparr> ID = 1, UserID = 7, Amount = 100, PaymentDurationWeeks = 2,
       PaymentAmount = 110, Status = LoanStatusOngoing, CreatedAt = 1682899200000000000,
       UpdatedAt = 1682899200000000000 \<rparr>"
      and paid = 0
      and calls = "[(Inr 11, 1683504000000000000, 1683504000000000001, 1683504000000000000, 55),
        (Inr 12, 1684108800000000000, 1684108800000000001, 1684108800000000000, 55)]"
      and flags = "[False, True]"
      and loan' = "\<lparr> ID = 1, UserID = 7, Amount = 100, PaymentDurationWeeks = 2,
           PaymentAmount = 110, Status = LoanStatusPaid, CreatedAt = 1682899200000000000,
           UpdatedAt = 1684108800000000001 \<rparr>"
      and paid' = 110, THEN conjunct2] m
  show ?thesis by simp
qed

end
